theory Spec2Isabelle
  imports Main
begin

section \<open>JavaScript values used by the middleware\<close>

text \<open>
  Strings are sequences of code units; the model keeps the code units below 256 (one
  \<^typ>\<open>char\<close> each), which covers every header and cookie string made of ASCII or
  Latin-1 characters. \<open>undefined\<close> is \<open>None\<close> of an option type, a thrown
  \<open>TypeError\<close> is the left summand of a result.
\<close>

datatype error = TypeError

text \<open>White space removed by \<open>String.prototype.trim\<close>: TAB, LF, VT, FF, CR, SP, NBSP.\<close>

definition isWhiteSpace :: "char \<Rightarrow> bool" where
  "isWhiteSpace c \<longleftrightarrow> (of_char c :: nat) \<in> {9, 10, 11, 12, 13, 32, 160}"

definition trim :: "string \<Rightarrow> string" where
  "trim s = rev (dropWhile isWhiteSpace (rev (dropWhile isWhiteSpace s)))"

text \<open>\<open>toLowerCase\<close> on code units below 256: A-Z and the Latin-1 capitals (not the
  multiplication sign) move up by 32.\<close>

definition toLowerChar :: "char \<Rightarrow> char" where
  "toLowerChar c =
     (let n = (of_char c :: nat)
      in if (65 \<le> n \<and> n \<le> 90) \<or> (192 \<le> n \<and> n \<le> 222 \<and> n \<noteq> 215)
         then char_of (n + 32) else c)"

definition toLowerCase :: "string \<Rightarrow> string" where
  "toLowerCase s = map toLowerChar s"

text \<open>\<open>s.split(c)\<close> for a one-character separator: never the empty array.\<close>

fun js_split :: "char \<Rightarrow> string \<Rightarrow> string list" where
  "js_split c [] = [[]]"
| "js_split c (x # xs) =
     (if x = c then [] # js_split c xs
      else case js_split c xs of [] \<Rightarrow> [[x]] | y # ys \<Rightarrow> (x # y) # ys)"

text \<open>\<open>a.join(sep)\<close>.\<close>

fun js_join :: "string \<Rightarrow> string list \<Rightarrow> string" where
  "js_join sep [] = []"
| "js_join sep [a] = a"
| "js_join sep (a # b # bs) = a @ sep @ js_join sep (b # bs)"

text \<open>\<open>s.indexOf(c)\<close>, \<open>s.lastIndexOf(c)\<close> and \<open>s.substring(a, b)\<close>, which
  clamps both arguments to the string and swaps them when \<open>a > b\<close>.\<close>

definition indexOf :: "string \<Rightarrow> char \<Rightarrow> int" where
  "indexOf s c = (if c \<in> set s then int (length (takeWhile (\<lambda>x. x \<noteq> c) s)) else - 1)"

definition lastIndexOf :: "string \<Rightarrow> char \<Rightarrow> int" where
  "lastIndexOf s c =
     (if c \<in> set s then int (length s) - 1 - int (length (takeWhile (\<lambda>x. x \<noteq> c) (rev s)))
      else - 1)"

definition substring :: "string \<Rightarrow> int \<Rightarrow> int \<Rightarrow> string" where
  "substring s a b =
     (let n = int (length s);
          a' = min (max a 0) n;
          b' = min (max b 0) n;
          lo = min a' b';
          hi = max a' b'
      in take (nat (hi - lo)) (drop (nat lo) s))"

text \<open>\<open>a[i]\<close>: \<open>undefined\<close> out of range.\<close>

definition at_index :: "'a list \<Rightarrow> nat \<Rightarrow> 'a option" where
  "at_index xs i = (if i < length xs then Some (xs ! i) else None)"

text \<open>A value inside a template literal: \<open>`${undefined}`\<close> is the text \<open>undefined\<close>.\<close>

definition template :: "string option \<Rightarrow> string" where
  "template v = (case v of None \<Rightarrow> ''undefined'' | Some s \<Rightarrow> s)"

text \<open>Truthiness of a string or \<open>undefined\<close>: only the non-empty string is truthy.\<close>

definition truthy :: "string option \<Rightarrow> bool" where
  "truthy v = (case v of None \<Rightarrow> False | Some s \<Rightarrow> s \<noteq> [])"

text \<open>\<open>v || d\<close> on a string or \<open>undefined\<close>.\<close>

definition or_else :: "string option \<Rightarrow> string \<Rightarrow> string" where
  "or_else v d = (case v of None \<Rightarrow> d | Some s \<Rightarrow> if s \<noteq> [] then s else d)"

text \<open>
  Numbers: the integers and \<open>NaN\<close>. For an integer of magnitude below \<open>2^53\<close>
  \<open>Number.prototype.toString\<close> prints the decimal digits, with \<open>-\<close> before a
  negative one, and that is \<open>number_toString\<close>; fractions and larger magnitudes are
  outside the model.
\<close>

datatype number = NaN | Num int

definition digit_char :: "nat \<Rightarrow> char" where
  "digit_char d = char_of (48 + d)"

fun nat_toString :: "nat \<Rightarrow> string" where
  "nat_toString n =
     (if n < 10 then [digit_char n] else nat_toString (n div 10) @ [digit_char (n mod 10)])"

declare nat_toString.simps [simp del]

definition int_toString :: "int \<Rightarrow> string" where
  "int_toString i = (if i < 0 then CHR ''-'' # nat_toString (nat (- i)) else nat_toString (nat i))"

definition number_toString :: "number \<Rightarrow> string" where
  "number_toString n = (case n of NaN \<Rightarrow> ''NaN'' | Num i \<Rightarrow> int_toString i)"

text \<open>
  \<open>parseInt(v, 10)\<close>: the argument is converted to a string (\<open>undefined\<close> gives the
  text \<open>undefined\<close>), leading white space is skipped, one sign is read, and the longest
  prefix of decimal digits is the value; no digit gives \<open>NaN\<close>.
\<close>

definition isDigit :: "char \<Rightarrow> bool" where
  "isDigit c \<longleftrightarrow> 48 \<le> (of_char c :: nat) \<and> (of_char c :: nat) \<le> 57"

definition digits_value :: "string \<Rightarrow> nat" where
  "digits_value ds = foldl (\<lambda>acc c. 10 * acc + (of_char c - 48)) 0 ds"

definition parseInt10 :: "string option \<Rightarrow> number" where
  "parseInt10 v =
     (let s = dropWhile isWhiteSpace (template v);
          neg = (s \<noteq> [] \<and> hd s = CHR ''-'');
          r = (if s \<noteq> [] \<and> (hd s = CHR ''-'' \<or> hd s = CHR ''+'') then tl s else s);
          ds = takeWhile isDigit r
      in if ds = [] then NaN
         else Num (if neg then - int (digits_value ds) else int (digits_value ds)))"

section \<open>Requests, responses and streams\<close>

text \<open>
  Header objects are maps from names to strings. An entry assigned \<open>undefined\<close> is
  read back as \<open>undefined\<close>, like a missing one, and is modelled as missing. A
  writable stream is the list of calls made on it.
\<close>

datatype 'a stream_call = StreamWrite 'a | StreamEnd "'a option"

datatype MiddlewareFunctionResult = Continue | End

record request =
  "method" :: string
  headers :: "string \<rightharpoonup> string"

record response =
  status :: nat
  headers :: "string \<rightharpoonup> string"
  headersSent :: bool
  stream :: "string stream_call list"

section \<open>CORS middleware (src/middleware/cors.js)\<close>

text \<open>An entry of \<open>allowOrigin\<close> is a string or a \<open>RegExp\<close>; of a \<open>RegExp\<close> the model
  keeps what \<open>test\<close> answers on each string.\<close>

datatype origin_entry = OriginString string | OriginRegExp "string \<Rightarrow> bool"

record CORSMiddlewareOptions =
  allowOrigin :: "origin_entry list option"
  allowCredentials :: "bool option"
  allowMethods :: "string list option"
  allowHeaders :: "string list option"
  maxAge :: "number option"
  exposeHeaders :: "string list option"

text \<open>\<open>res.headers[name] = value\<close>.\<close>

definition set_header :: "response \<Rightarrow> string \<Rightarrow> string \<Rightarrow> response" where
  "set_header res name v = res\<lparr>headers := (headers res)(name \<mapsto> v)\<rparr>"

text \<open>The callback of \<open>options.allowOrigin.some\<close>, run over the list until it answers
  \<open>true\<close>.\<close>

fun allowOrigin_some :: "string \<Rightarrow> origin_entry list \<Rightarrow> response \<Rightarrow> response" where
  "allowOrigin_some reqOrigin [] res = res"
| "allowOrigin_some reqOrigin (origin # rest) res =
     (case origin of
        OriginString s \<Rightarrow>
          if s = ''*'' then set_header res ''access-control-allow-origin'' ''*''
          else if toLowerCase reqOrigin = toLowerCase s
          then set_header res ''access-control-allow-origin'' reqOrigin
          else allowOrigin_some reqOrigin rest res
      | OriginRegExp test \<Rightarrow>
          if test reqOrigin then set_header res ''access-control-allow-origin'' reqOrigin
          else allowOrigin_some reqOrigin rest res)"

text \<open>The statements of \<open>executeCORSMiddleware\<close> after the test for an Origin header,
  one definition for each, in the order of the source.\<close>

definition cors_allow_origin :: "CORSMiddlewareOptions \<Rightarrow> string \<Rightarrow> response \<Rightarrow> response" where
  "cors_allow_origin options reqOrigin res =
     (case allowOrigin options of
        None \<Rightarrow> set_header res ''access-control-allow-origin'' ''*''
      | Some origins \<Rightarrow> allowOrigin_some reqOrigin origins res)"

definition cors_allow_credentials :: "CORSMiddlewareOptions \<Rightarrow> response \<Rightarrow> response" where
  "cors_allow_credentials options res =
     (if allowCredentials options = Some True
      then set_header res ''access-control-allow-credentials'' ''true'' else res)"

definition cors_allow_methods :: "CORSMiddlewareOptions \<Rightarrow> response \<Rightarrow> response" where
  "cors_allow_methods options res =
     (case allowMethods options of
        Some methods \<Rightarrow> set_header res ''access-control-allow-methods'' (js_join '','' methods)
      | None \<Rightarrow>
          set_header res ''access-control-allow-methods''
            (js_join '',''
               [''GET'', ''HEAD'', ''POST'', ''PUT'', ''DELETE'', ''CONNECT'', ''TRACE'', ''PATCH'']))"

definition cors_allow_headers :: "CORSMiddlewareOptions \<Rightarrow> request \<Rightarrow> response \<Rightarrow> response" where
  "cors_allow_headers options req res =
     (case allowHeaders options of
        Some hs \<Rightarrow> set_header res ''access-control-allow-headers'' (js_join '','' hs)
      | None \<Rightarrow>
          res\<lparr>headers := (headers res)
            (''access-control-allow-headers'' :=
               request.headers req ''access-control-request-headers'')\<rparr>)"

text \<open>\<open>if (options.maxAge)\<close>: \<open>undefined\<close>, \<open>NaN\<close> and \<open>0\<close> are falsy.\<close>

definition cors_max_age :: "CORSMiddlewareOptions \<Rightarrow> response \<Rightarrow> response" where
  "cors_max_age options res =
     (case maxAge options of
        Some (Num n) \<Rightarrow>
          if n \<noteq> 0 then set_header res ''access-control-max-age'' (number_toString (Num n))
          else res
      | _ \<Rightarrow> res)"

definition cors_expose_headers :: "CORSMiddlewareOptions \<Rightarrow> response \<Rightarrow> response" where
  "cors_expose_headers options res =
     (case exposeHeaders options of
        Some hs \<Rightarrow> set_header res ''access-control-expose-headers'' (js_join '','' hs)
      | None \<Rightarrow> res)"

definition executeCORSMiddleware ::
  "request \<Rightarrow> response \<Rightarrow> CORSMiddlewareOptions \<Rightarrow> MiddlewareFunctionResult \<times> response" where
  "executeCORSMiddleware req res options =
     (case request.headers req ''origin'' of
        None \<Rightarrow> (Continue, res)
      | Some reqOrigin \<Rightarrow>
          (let res2 = cors_allow_credentials options (cors_allow_origin options reqOrigin res)
           in if method req = ''OPTIONS''
              then
                (let res5 = cors_max_age options
                              (cors_allow_headers options req (cors_allow_methods options res2))
                 in (End, res5\<lparr>status := 200, stream := stream res5 @ [StreamEnd (Some ''OK'')]\<rparr>))
              else (Continue, cors_expose_headers options res2)))"

text \<open>\<open>defaultCORSMiddleware\<close> runs with the options \<open>{}\<close>.\<close>

definition defaultCORSMiddleware :: "request \<Rightarrow> response \<Rightarrow> MiddlewareFunctionResult \<times> response" where
  "defaultCORSMiddleware req res =
     executeCORSMiddleware req res
       \<lparr>allowOrigin = None, allowCredentials = None, allowMethods = None, allowHeaders = None,
        maxAge = None, exposeHeaders = None\<rparr>"

text \<open>
  The spec's reading of the origin scan, for comparison with \<open>allowOrigin_some\<close>: an
  entry matches when it is the string \<open>*\<close>, a string equal to the Origin up to letter
  case, or a pattern whose test accepts the Origin; the first matching entry decides.
\<close>

definition entry_matches :: "string \<Rightarrow> origin_entry \<Rightarrow> bool" where
  "entry_matches reqOrigin entry =
     (case entry of
        OriginString s \<Rightarrow> s = ''*'' \<or> toLowerCase reqOrigin = toLowerCase s
      | OriginRegExp test \<Rightarrow> test reqOrigin)"

definition first_match_spec :: "string \<Rightarrow> origin_entry list \<Rightarrow> string option" where
  "first_match_spec reqOrigin origins =
     (case find (entry_matches reqOrigin) origins of
        None \<Rightarrow> None
      | Some (OriginString s) \<Rightarrow> Some (if s = ''*'' then ''*'' else reqOrigin)
      | Some (OriginRegExp test) \<Rightarrow> Some reqOrigin)"

text \<open>Two responses that differ at most in the header entries named in \<open>ks\<close>.\<close>

definition same_but_headers :: "response \<Rightarrow> response \<Rightarrow> string set \<Rightarrow> bool" where
  "same_but_headers r1 r0 ks \<longleftrightarrow>
     r1 = r0\<lparr>headers := headers r1\<rparr> \<and> (\<forall>k. k \<notin> ks \<longrightarrow> headers r1 k = headers r0 k)"

section \<open>Buffer encoder middleware (src/middleware/bufferencoder.js)\<close>

record BufferEncoderMiddlewareOptions =
  defaultCharset :: "string option"
  setCharset :: bool
  setJSON :: bool

datatype BufferEncoding = latin1 | utf16le | utf8 | base64 | hex

text \<open>The \<open>switch\<close> of \<open>charsetAsBufferEncoding\<close>: its \<open>default\<close> clause is taken when
  no label matches, the labels \<open>base64\<close> and \<open>hex\<close> written after it included.\<close>

definition charsetAsBufferEncoding :: "string \<Rightarrow> BufferEncoding" where
  "charsetAsBufferEncoding charset =
     (if charset = ''iso-8859-1'' \<or> charset = ''ascii'' \<or> charset = ''binary''
         \<or> charset = ''latin1'' then latin1
      else if charset = ''utf-16le'' \<or> charset = ''ucs-2'' \<or> charset = ''ucs2''
         \<or> charset = ''utf16le'' then utf16le
      else if charset = ''base64'' then base64
      else if charset = ''hex'' then hex
      else utf8)"

text \<open>
  The value handed to the \<open>data\<close> listener: a \<open>Buffer\<close>, a string, an object, or a
  value of any other type (a number, a boolean), which an object-mode stream accepts too.
\<close>

datatype ('b, 'o) chunk_value = IsBuffer 'b | IsString string | IsObject 'o | IsOther

text \<open>
  The variables that one call of \<open>executeBufferEncoderMiddleware\<close> closes over, with the
  response and the stream that \<open>res.replaceStream\<close> returned. A chunk is a \<open>Buffer\<close> or
  \<open>undefined\<close>; \<open>charset\<close> and \<open>encoding\<close> start as \<open>null\<close> (\<open>None\<close>).
\<close>

record 'b encoder_state =
  res :: response
  destination :: "'b option stream_call list"
  endCalled :: bool
  pendingChunks :: "'b option list"
  charset :: "string option"
  encoding :: "BufferEncoding option"
  hasSetJSON :: bool

text \<open>
  Modelled from the spec: \<open>addEndObserver\<close> and \<open>hasEndCalled\<close> of
  \<open>utils/writableObserver.js\<close>, which is not among the sources. The observer records,
  at the moment \<open>end()\<close> is called on the stream, that end was requested;
  \<open>hasEndCalled\<close> reads that flag.
\<close>

definition hasEndCalled :: "'b encoder_state \<Rightarrow> bool" where
  "hasEndCalled st = endCalled st"

definition end_requested :: "'b encoder_state \<Rightarrow> 'b encoder_state" where
  "end_requested st = st\<lparr>endCalled := True\<rparr>"

text \<open>
  The callback of \<open>contentType.split(';').some\<close> in \<open>parseCharset\<close>; it returns the
  new value of the variable \<open>charset\<close>. \<open>parameters[1]?.trim().toLowerCase()\<close> is
  \<open>undefined\<close> when the directive has no \<open>=\<close>, and \<open>charset.indexOf\<close> then throws.
  \<open>CHR 0x22\<close> is the double quote.
\<close>

fun parseCharset_some :: "string list \<Rightarrow> string option \<Rightarrow> error + string option" where
  "parseCharset_some [] current = Inr current"
| "parseCharset_some (directive # rest) current =
     (let parameters = js_split CHR ''='' directive
      in case at_index parameters 0 of
           None \<Rightarrow> Inl TypeError
         | Some p0 \<Rightarrow>
             if toLowerCase (trim p0) \<noteq> ''charset'' then parseCharset_some rest current
             else
               (case at_index parameters 1 of
                  None \<Rightarrow> Inl TypeError
                | Some p1 \<Rightarrow>
                    (let cs = toLowerCase (trim p1);
                         firstQuote = indexOf cs (CHR 0x22);
                         lastQuote = lastIndexOf cs (CHR 0x22)
                     in if firstQuote \<noteq> - 1 \<and> lastQuote \<noteq> - 1
                        then Inr (Some (substring cs (firstQuote + 1) lastQuote))
                        else Inr (Some cs))))"

definition parseCharset ::
  "BufferEncoderMiddlewareOptions \<Rightarrow> 'b encoder_state \<Rightarrow> error + string \<times> 'b encoder_state" where
  "parseCharset options st =
     (case charset st of
        Some (c # cs) \<Rightarrow> Inr (c # cs, st)
      | _ \<Rightarrow>
          (let contentType = headers (res st) ''content-type''
           in case (if truthy contentType
                    then parseCharset_some (js_split CHR '';'' (template contentType)) (charset st)
                    else Inr (charset st)) of
                Inl e \<Rightarrow> Inl e
              | Inr (Some (c # cs)) \<Rightarrow> Inr (c # cs, st\<lparr>charset := Some (c # cs)\<rparr>)
              | Inr _ \<Rightarrow>
                  (let charset' = or_else (defaultCharset options) ''utf-8''
                   in Inr (charset',
                        st\<lparr>charset := Some charset',
                           res := (if setCharset options \<and> \<not> headersSent (res st)
                                   then (res st)\<lparr>headers := (headers (res st))
                                          (''content-type'' \<mapsto>
                                             or_else contentType [] @ '';charset='' @ charset')\<rparr>
                                   else res st)\<rparr>))))"

definition setJSONMediaType :: "'b encoder_state \<Rightarrow> 'b encoder_state" where
  "setJSONMediaType st =
     (if hasSetJSON st then st
      else
        (let contentType = headers (res st) ''content-type''
         in st\<lparr>res := (res st)\<lparr>headers := (headers (res st))
                  (''content-type'' \<mapsto>
                     js_join '';''
                       (map (\<lambda>directive.
                               if CHR ''='' \<in> set directive then directive
                               else ''application/json'')
                          (js_split CHR '';'' (or_else contentType []))))\<rparr>,
               hasSetJSON := True\<rparr>))"

text \<open>\<open>if (!encoding) encoding = charsetAsBufferEncoding(parseCharset())\<close>.\<close>

definition resolve_encoding ::
  "BufferEncoderMiddlewareOptions \<Rightarrow> 'b encoder_state
     \<Rightarrow> error + BufferEncoding \<times> 'b encoder_state" where
  "resolve_encoding options st =
     (case encoding st of
        Some e \<Rightarrow> Inr (e, st)
      | None \<Rightarrow>
          (case parseCharset options st of
             Inl err \<Rightarrow> Inl err
           | Inr (cs, st') \<Rightarrow>
               Inr (charsetAsBufferEncoding cs,
                    st'\<lparr>encoding := Some (charsetAsBufferEncoding cs)\<rparr>)))"

text \<open>
  The \<open>data\<close> listener. \<open>Buffer.from(s, encoding)\<close> and \<open>JSON.stringify\<close> are
  parameters; \<open>stringify\<close> answers \<open>None\<close> where \<open>JSON.stringify\<close> throws or returns
  \<open>undefined\<close> (\<open>Buffer.from\<close> throws on that). The first component of
  \<open>convert_chunk\<close> is the variable \<open>chunk\<close>, which stays \<open>undefined\<close> when no
  branch of the \<open>if\<close> chain is taken.
\<close>

definition convert_chunk ::
  "(string \<Rightarrow> BufferEncoding \<Rightarrow> 'b) \<Rightarrow> ('o \<Rightarrow> string option) \<Rightarrow> BufferEncoderMiddlewareOptions
     \<Rightarrow> ('b, 'o) chunk_value \<Rightarrow> 'b encoder_state \<Rightarrow> error + 'b option \<times> 'b encoder_state" where
  "convert_chunk bufferFrom stringify options any st =
     (case any of
        IsBuffer b \<Rightarrow> Inr (Some b, st)
      | IsString s \<Rightarrow>
          (case resolve_encoding options st of
             Inl err \<Rightarrow> Inl err
           | Inr (e, st') \<Rightarrow> Inr (Some (bufferFrom s e), st'))
      | IsObject obj \<Rightarrow>
          (case resolve_encoding options st of
             Inl err \<Rightarrow> Inl err
           | Inr (e, st') \<Rightarrow>
               (case stringify obj of
                  None \<Rightarrow> Inl TypeError
                | Some json \<Rightarrow>
                    Inr (Some (bufferFrom json e),
                         if setJSON options \<and> \<not> hasSetJSON st' \<and> \<not> headersSent (res st')
                         then setJSONMediaType st' else st')))
      | IsOther \<Rightarrow> Inr (None, st))"

definition on_data ::
  "(string \<Rightarrow> BufferEncoding \<Rightarrow> 'b) \<Rightarrow> ('o \<Rightarrow> string option) \<Rightarrow> BufferEncoderMiddlewareOptions
     \<Rightarrow> ('b, 'o) chunk_value \<Rightarrow> 'b encoder_state \<Rightarrow> error + 'b encoder_state" where
  "on_data bufferFrom stringify options any st =
     (case convert_chunk bufferFrom stringify options any st of
        Inl err \<Rightarrow> Inl err
      | Inr (chunk, st') \<Rightarrow>
          if hasEndCalled st'
          then Inr (st'\<lparr>pendingChunks := pendingChunks st' @ [chunk]\<rparr>)
          else Inr (st'\<lparr>destination := destination st' @ [StreamWrite chunk]\<rparr>))"

text \<open>A run of \<open>data\<close> events, one per value, stopping at the first that throws.\<close>

fun on_data_all ::
  "(string \<Rightarrow> BufferEncoding \<Rightarrow> 'b) \<Rightarrow> ('o \<Rightarrow> string option) \<Rightarrow> BufferEncoderMiddlewareOptions
     \<Rightarrow> ('b, 'o) chunk_value list \<Rightarrow> 'b encoder_state \<Rightarrow> error + 'b encoder_state" where
  "on_data_all bufferFrom stringify options [] st = Inr st"
| "on_data_all bufferFrom stringify options (any # rest) st =
     (case on_data bufferFrom stringify options any st of
        Inl err \<Rightarrow> Inl err
      | Inr st' \<Rightarrow> on_data_all bufferFrom stringify options rest st')"

text \<open>
  The loop of the \<open>end\<close> listener, \<open>while (chunk = pendingChunks.shift())\<close>:
  \<open>shift\<close> removes the first element, and the loop goes on while that element is
  truthy. A \<open>Buffer\<close> is an object, so it is truthy; \<open>undefined\<close> is not.
\<close>

fun flush_pending ::
  "'b option list \<Rightarrow> 'b option stream_call list \<Rightarrow> 'b option list \<times> 'b option stream_call list" where
  "flush_pending [] dest = ([], dest)"
| "flush_pending (None # rest) dest = (rest, dest)"
| "flush_pending (Some b # rest) dest = flush_pending rest (dest @ [StreamWrite (Some b)])"

definition on_end :: "'b encoder_state \<Rightarrow> 'b encoder_state" where
  "on_end st =
     (case flush_pending (pendingChunks st) (destination st) of
        (pending', dest') \<Rightarrow>
          st\<lparr>pendingChunks := pending', destination := dest' @ [StreamEnd None]\<rparr>)"

text \<open>
  \<open>executeBufferEncoderMiddleware\<close>: nothing is installed for a HEAD request; otherwise
  the new stream is installed with fresh variables, and the stream replaced becomes the
  destination, whose calls are recorded from here on. The parameter \<open>res\<close> of the
  source is \<open>response\<close> here, \<open>res\<close> being the field of the state that holds it.
\<close>

definition executeBufferEncoderMiddleware ::
  "request \<Rightarrow> response \<Rightarrow> MiddlewareFunctionResult \<times> 'b encoder_state option" where
  "executeBufferEncoderMiddleware req response =
     (if method req = ''HEAD'' then (Continue, None)
      else (Continue,
            Some \<lparr>res = response, destination = [], endCalled = False, pendingChunks = [],
                  charset = None, encoding = None, hasSetJSON = False\<rparr>))"

section \<open>CookieObject (src/helpers/CookieObject.js)\<close>

text \<open>
  One record for \<open>CookieObjectOptions\<close> and for the fields of a \<open>CookieObject\<close>: every
  field may be \<open>undefined\<close>. The field \<open>value\<close> of the source is \<open>cvalue\<close> here,
  \<open>value\<close> being a word of the theory language. The type of dates is a parameter,
  with \<open>new Date(v)\<close> and \<open>Date.prototype.toUTCString\<close> passed to the functions that
  use them.
\<close>

record 'd CookieObjectOptions =
  name :: "string option"
  cvalue :: "string option"
  expires :: "'d option"
  maxAge :: "number option"
  domain :: "string option"
  path :: "string option"
  secure :: "bool option"
  httpOnly :: "bool option"
  sameSite :: "string option"

text \<open>The empty object literal \<open>{}\<close> that \<open>parse\<close> starts from.\<close>

definition empty_options :: "'d CookieObjectOptions" where
  "empty_options =
     \<lparr>name = None, cvalue = None, expires = None, maxAge = None, domain = None,
      path = None, secure = None, httpOnly = None, sameSite = None\<rparr>"

text \<open>The constructor on an options record: \<open>secure\<close> and \<open>httpOnly\<close> get \<open>?? false\<close>.
  On a string the constructor returns \<open>parse\<close> of it, defined below.\<close>

definition CookieObject :: "'d CookieObjectOptions \<Rightarrow> 'd CookieObjectOptions" where
  "CookieObject options =
     options\<lparr>secure := Some (case secure options of None \<Rightarrow> False | Some b \<Rightarrow> b),
             httpOnly := Some (case httpOnly options of None \<Rightarrow> False | Some b \<Rightarrow> b)\<rparr>"

text \<open>
  The callback of \<open>forEach\<close> in \<open>parse\<close>. \<open>key\<close> and \<open>value\<close> are the first two
  elements of the split attribute; \<open>key.toLowerCase()\<close> throws when \<open>key\<close> is
  \<open>undefined\<close>.
\<close>

definition parse_attribute ::
  "(string option \<Rightarrow> 'd) \<Rightarrow> string \<Rightarrow> nat \<Rightarrow> 'd CookieObjectOptions
     \<Rightarrow> error + 'd CookieObjectOptions" where
  "parse_attribute newDate attribute index options =
     (let parts = map trim (js_split CHR ''='' attribute);
          key = at_index parts 0;
          val = at_index parts 1
      in if index = 0 then Inr (options\<lparr>name := key, cvalue := val\<rparr>)
         else case key of
           None \<Rightarrow> Inl TypeError
         | Some k \<Rightarrow>
             (let lk = toLowerCase k
              in if lk = ''expires'' then Inr (options\<lparr>expires := Some (newDate val)\<rparr>)
                 else if lk = ''max-age'' then Inr (options\<lparr>maxAge := Some (parseInt10 val)\<rparr>)
                 else if lk = ''domain'' then Inr (options\<lparr>domain := val\<rparr>)
                 else if lk = ''path'' then Inr (options\<lparr>path := val\<rparr>)
                 else if lk = ''secure'' then Inr (options\<lparr>secure := Some True\<rparr>)
                 else if lk = ''httponly'' then Inr (options\<lparr>httpOnly := Some True\<rparr>)
                 else if lk = ''samesite'' then Inr (options\<lparr>sameSite := val\<rparr>)
                 else Inr options))"

fun parse_forEach ::
  "(string option \<Rightarrow> 'd) \<Rightarrow> nat \<Rightarrow> string list \<Rightarrow> 'd CookieObjectOptions
     \<Rightarrow> error + 'd CookieObjectOptions" where
  "parse_forEach newDate index [] options = Inr options"
| "parse_forEach newDate index (attribute # rest) options =
     (case parse_attribute newDate attribute index options of
        Inl e \<Rightarrow> Inl e
      | Inr options' \<Rightarrow> parse_forEach newDate (Suc index) rest options')"

definition parse :: "(string option \<Rightarrow> 'd) \<Rightarrow> string \<Rightarrow> error + 'd CookieObjectOptions" where
  "parse newDate cookieString =
     (case parse_forEach newDate 0 (js_split CHR '';'' cookieString) empty_options of
        Inl e \<Rightarrow> Inl e
      | Inr options \<Rightarrow> Inr (CookieObject options))"

definition toString :: "('d \<Rightarrow> string) \<Rightarrow> 'd CookieObjectOptions \<Rightarrow> string" where
  "toString toUTCString this =
     template (name this) @ ''='' @ template (cvalue this)
     @ (case expires this of Some d \<Rightarrow> '';Expires='' @ toUTCString d | None \<Rightarrow> [])
     @ (case maxAge this of Some n \<Rightarrow> '';Max-Age='' @ number_toString n | None \<Rightarrow> [])
     @ (if truthy (domain this) then '';Domain='' @ template (domain this) else [])
     @ (if truthy (path this) then '';Path='' @ template (path this) else [])
     @ (if secure this = Some True then '';Secure'' else [])
     @ (if httpOnly this = Some True then '';HttpOnly'' else [])
     @ (if truthy (sameSite this) then '';SameSite='' @ template (sameSite this) else [])"


text \<open>The lower-cased key of an attribute, as the \<open>switch\<close> of \<open>parse\<close> sees it.\<close>

definition attribute_key :: "string \<Rightarrow> string" where
  "attribute_key attribute = toLowerCase (trim (hd (js_split CHR ''='' attribute)))"

text \<open>A string that the wire format carries unchanged: no \<open>;\<close>, no \<open>=\<close>, nothing
  for \<open>trim\<close> to remove.\<close>

definition wire_safe :: "string \<Rightarrow> bool" where
  "wire_safe s \<longleftrightarrow> CHR '';'' \<notin> set s \<and> CHR ''='' \<notin> set s \<and> trim s = s"

text \<open>An optional attribute that is absent, or a non-empty string carried unchanged.\<close>

definition wire_attr :: "string option \<Rightarrow> bool" where
  "wire_attr v = (case v of None \<Rightarrow> True | Some s \<Rightarrow> s \<noteq> [] \<and> wire_safe s)"

text \<open>The attributes that \<open>toString\<close> emits after \<open>name=value\<close>, each without its
  leading \<open>;\<close>, in the order of emission.\<close>

definition attributes_of :: "('d \<Rightarrow> string) \<Rightarrow> 'd CookieObjectOptions \<Rightarrow> string list" where
  "attributes_of toUTCString this =
     (case expires this of Some d \<Rightarrow> [''Expires='' @ toUTCString d] | None \<Rightarrow> [])
     @ (case maxAge this of Some n \<Rightarrow> [''Max-Age='' @ number_toString n] | None \<Rightarrow> [])
     @ (if truthy (domain this) then [''Domain='' @ template (domain this)] else [])
     @ (if truthy (path this) then [''Path='' @ template (path this)] else [])
     @ (if secure this = Some True then [''Secure''] else [])
     @ (if httpOnly this = Some True then [''HttpOnly''] else [])
     @ (if truthy (sameSite this) then [''SameSite='' @ template (sameSite this)] else [])"

section \<open>The CORS middleware: origin matching, preflight, frame\<close>

lemma allowOrigin_some_eq:
  "allowOrigin_some reqOrigin origins r =
     (case first_match_spec reqOrigin origins of
        None \<Rightarrow> r
      | Some v \<Rightarrow> set_header r ''access-control-allow-origin'' v)"
  by (induction origins)
     (auto simp: first_match_spec_def entry_matches_def split: origin_entry.splits)

lemma first_match_spec_values:
  "first_match_spec reqOrigin origins \<in> {None, Some ''*'', Some reqOrigin}"
  by (auto simp: first_match_spec_def split: option.splits origin_entry.splits)

lemma first_match_spec_prefix:
  "entry_matches reqOrigin e \<Longrightarrow>
   first_match_spec reqOrigin (pre @ e # post) = first_match_spec reqOrigin (pre @ [e])"
  by (induction pre) (auto simp: first_match_spec_def)

lemma allowOrigin_some_prefix:
  "entry_matches reqOrigin e \<Longrightarrow>
   allowOrigin_some reqOrigin (pre @ e # post) r = allowOrigin_some reqOrigin (pre @ [e]) r"
  using first_match_spec_prefix [of reqOrigin e pre post]
  by (simp only: allowOrigin_some_eq)

lemma same_refl: "same_but_headers r r ks"
  by (simp add: same_but_headers_def)

lemma same_set_header: "same_but_headers (set_header r k v) r {k}"
  by (simp add: same_but_headers_def set_header_def)

lemma same_trans:
  "same_but_headers r2 r1 ks \<Longrightarrow> same_but_headers r1 r0 ks' \<Longrightarrow>
   same_but_headers r2 r0 (ks \<union> ks')"
  unfolding same_but_headers_def
  by (cases r2, cases r1, cases r0) auto

lemma same_fields:
  assumes "same_but_headers r1 r0 ks"
  shows "status r1 = status r0" "stream r1 = stream r0" "headersSent r1 = headersSent r0"
  using assms unfolding same_but_headers_def
  by (cases r1, cases r0, auto)+

lemma same_header: "same_but_headers r1 r0 ks \<Longrightarrow> k \<notin> ks \<Longrightarrow> headers r1 k = headers r0 k"
  by (simp add: same_but_headers_def)

lemma cors_allow_origin_same:
  "same_but_headers (cors_allow_origin options reqOrigin r) r {''access-control-allow-origin''}"
  by (simp add: cors_allow_origin_def allowOrigin_some_eq same_refl same_set_header
      split: option.split)

lemma cors_allow_credentials_same:
  "same_but_headers (cors_allow_credentials options r) r {''access-control-allow-credentials''}"
  by (simp add: cors_allow_credentials_def same_refl same_set_header)

lemma cors_allow_methods_same:
  "same_but_headers (cors_allow_methods options r) r {''access-control-allow-methods''}"
  by (simp add: cors_allow_methods_def same_set_header split: option.split)

lemma cors_allow_headers_same:
  "same_but_headers (cors_allow_headers options req r) r {''access-control-allow-headers''}"
  by (simp add: cors_allow_headers_def same_but_headers_def set_header_def split: option.split)

lemma cors_max_age_same:
  "same_but_headers (cors_max_age options r) r {''access-control-max-age''}"
  by (simp add: cors_max_age_def same_set_header same_refl split: option.split number.split)

lemma cors_expose_headers_same:
  "same_but_headers (cors_expose_headers options r) r {''access-control-expose-headers''}"
  by (simp add: cors_expose_headers_def same_set_header same_refl split: option.split)

lemma cors_allow_origin_header:
  "headers (cors_allow_origin options reqOrigin r) ''access-control-allow-origin'' =
     (case allowOrigin options of
        None \<Rightarrow> Some ''*''
      | Some origins \<Rightarrow>
          (case first_match_spec reqOrigin origins of
             Some v \<Rightarrow> Some v
           | None \<Rightarrow> headers r ''access-control-allow-origin''))"
  by (simp add: cors_allow_origin_def allowOrigin_some_eq set_header_def split: option.split)

lemma cors_simple_result:
  assumes "request.headers req ''origin'' = Some reqOrigin" and "method req \<noteq> ''OPTIONS''"
  shows "executeCORSMiddleware req r options =
           (Continue,
            cors_expose_headers options
              (cors_allow_credentials options (cors_allow_origin options reqOrigin r)))"
  using assms by (simp add: executeCORSMiddleware_def)

lemma cors_preflight_result:
  assumes "request.headers req ''origin'' = Some reqOrigin" and "method req = ''OPTIONS''"
  shows "executeCORSMiddleware req r options =
           (End,
            (cors_max_age options (cors_allow_headers options req (cors_allow_methods options
               (cors_allow_credentials options (cors_allow_origin options reqOrigin r)))))
            \<lparr>status := 200,
             stream := stream (cors_max_age options (cors_allow_headers options req
               (cors_allow_methods options (cors_allow_credentials options
                 (cors_allow_origin options reqOrigin r))))) @ [StreamEnd (Some ''OK'')]\<rparr>)"
  using assms by (simp add: executeCORSMiddleware_def Let_def)

lemma cors_preflight_steps_same:
  "same_but_headers
     (cors_max_age options (cors_allow_headers options req (cors_allow_methods options
        (cors_allow_credentials options (cors_allow_origin options reqOrigin r))))) r
     ({''access-control-max-age''} \<union> ({''access-control-allow-headers''} \<union>
        ({''access-control-allow-methods''} \<union> ({''access-control-allow-credentials''} \<union>
           {''access-control-allow-origin''}))))"
  by (rule same_trans [OF cors_max_age_same same_trans [OF cors_allow_headers_same
        same_trans [OF cors_allow_methods_same
          same_trans [OF cors_allow_credentials_same cors_allow_origin_same]]]])

lemma cors_simple_steps_same:
  "same_but_headers
     (cors_expose_headers options
        (cors_allow_credentials options (cors_allow_origin options reqOrigin r))) r
     ({''access-control-expose-headers''} \<union> ({''access-control-allow-credentials''} \<union>
           {''access-control-allow-origin''}))"
  by (rule same_trans [OF cors_expose_headers_same
        same_trans [OF cors_allow_credentials_same cors_allow_origin_same]])

text \<open>
  Claim C2, as the code has it. For a request with an Origin header, the
  \<open>access-control-allow-origin\<close> header after the middleware is \<open>*\<close> when no
  allow-list is configured; with an allow-list it is decided by the first entry that
  matches, in list order: \<open>*\<close> for the entry \<open>*\<close>, the request's Origin, verbatim,
  for a string entry equal to it up to letter case or a pattern entry that accepts it;
  when no entry matches, the header is not set, so it keeps the value the response had
  before (absent when it had none). The decision is one of \<open>*\<close>, the Origin, or nothing,
  and the entries after the first match have no part in the result.
\<close>

theorem cors_allow_origin_first_match:
  assumes "request.headers req ''origin'' = Some reqOrigin"
  shows "headers (snd (executeCORSMiddleware req r options)) ''access-control-allow-origin'' =
           (case allowOrigin options of
              None \<Rightarrow> Some ''*''
            | Some origins \<Rightarrow>
                (case first_match_spec reqOrigin origins of
                   Some v \<Rightarrow> Some v
                 | None \<Rightarrow> headers r ''access-control-allow-origin''))
         \<and> (\<forall>origins. first_match_spec reqOrigin origins \<in> {None, Some ''*'', Some reqOrigin})
         \<and> (\<forall>pre e post. entry_matches reqOrigin e \<longrightarrow>
               allowOrigin_some reqOrigin (pre @ e # post) r
                 = allowOrigin_some reqOrigin (pre @ [e]) r)"
proof -
  let ?r1 = "cors_allow_origin options reqOrigin r"
  let ?r2 = "cors_allow_credentials options ?r1"
  have keep2: "headers ?r2 ''access-control-allow-origin'' = headers ?r1 ''access-control-allow-origin''"
    by (rule same_header [OF cors_allow_credentials_same]) simp
  have "headers (snd (executeCORSMiddleware req r options)) ''access-control-allow-origin''
          = headers ?r1 ''access-control-allow-origin''"
  proof (cases "method req = ''OPTIONS''")
    case True
    let ?r5 = "cors_max_age options (cors_allow_headers options req (cors_allow_methods options ?r2))"
    have "same_but_headers ?r5 ?r2
            ({''access-control-max-age''} \<union> ({''access-control-allow-headers''} \<union>
               {''access-control-allow-methods''}))"
      by (rule same_trans [OF cors_max_age_same
            same_trans [OF cors_allow_headers_same cors_allow_methods_same]])
    then have "headers ?r5 ''access-control-allow-origin'' = headers ?r2 ''access-control-allow-origin''"
      by (rule same_header) simp
    then show ?thesis
      using keep2 by (simp add: cors_preflight_result [OF assms True])
  next
    case False
    have "headers (cors_expose_headers options ?r2) ''access-control-allow-origin''
            = headers ?r2 ''access-control-allow-origin''"
      by (rule same_header [OF cors_expose_headers_same]) simp
    then show ?thesis
      using keep2 by (simp add: cors_simple_result [OF assms False])
  qed
  then have "headers (snd (executeCORSMiddleware req r options)) ''access-control-allow-origin'' =
           (case allowOrigin options of
              None \<Rightarrow> Some ''*''
            | Some origins \<Rightarrow>
                (case first_match_spec reqOrigin origins of
                   Some v \<Rightarrow> Some v
                 | None \<Rightarrow> headers r ''access-control-allow-origin''))"
    by (simp only: cors_allow_origin_header)
  moreover have "\<forall>origins. first_match_spec reqOrigin origins \<in> {None, Some ''*'', Some reqOrigin}"
    using first_match_spec_values by blast
  moreover have "\<forall>pre e post. entry_matches reqOrigin e \<longrightarrow>
               allowOrigin_some reqOrigin (pre @ e # post) r
                 = allowOrigin_some reqOrigin (pre @ [e]) r"
    using allowOrigin_some_prefix by blast
  ultimately show ?thesis by blast
qed

text \<open>
  Claim C3. A request with method OPTIONS and an Origin header: whatever the options,
  the middleware sets the status to 200, ends the response stream with the body \<open>OK\<close>,
  and returns \<open>end\<close>.
\<close>

theorem cors_preflight_ends:
  assumes "request.headers req ''origin'' = Some reqOrigin" and "method req = ''OPTIONS''"
  shows "fst (executeCORSMiddleware req r options) = End
         \<and> status (snd (executeCORSMiddleware req r options)) = 200
         \<and> stream (snd (executeCORSMiddleware req r options)) = stream r @ [StreamEnd (Some ''OK'')]"
  using same_fields(2) [OF cors_preflight_steps_same, of options req reqOrigin r]
  by (simp add: cors_preflight_result [OF assms])

text \<open>
  Claim C9. A request with an Origin header and a method other than OPTIONS: the
  middleware returns \<open>continue\<close>; the status and the response stream are as before, and
  so is every field of the response but the header mapping, where only the entries
  \<open>access-control-allow-origin\<close>, \<open>access-control-allow-credentials\<close> and
  \<open>access-control-expose-headers\<close> may differ.
\<close>

theorem cors_simple_frame:
  assumes "request.headers req ''origin'' = Some reqOrigin" and "method req \<noteq> ''OPTIONS''"
  shows "fst (executeCORSMiddleware req r options) = Continue
         \<and> snd (executeCORSMiddleware req r options)
             = r\<lparr>headers := headers (snd (executeCORSMiddleware req r options))\<rparr>
         \<and> status (snd (executeCORSMiddleware req r options)) = status r
         \<and> stream (snd (executeCORSMiddleware req r options)) = stream r
         \<and> (\<forall>k. k \<notin> {''access-control-allow-origin'', ''access-control-allow-credentials'',
                      ''access-control-expose-headers''} \<longrightarrow>
                headers (snd (executeCORSMiddleware req r options)) k = headers r k)"
proof -
  let ?r3 = "cors_expose_headers options
        (cors_allow_credentials options (cors_allow_origin options reqOrigin r))"
  note same = cors_simple_steps_same [of options reqOrigin r]
  have res: "executeCORSMiddleware req r options = (Continue, ?r3)"
    by (rule cors_simple_result [OF assms])
  have "?r3 = r\<lparr>headers := headers ?r3\<rparr>"
    using same by (simp only: same_but_headers_def)
  moreover have "status ?r3 = status r" "stream ?r3 = stream r"
    using same_fields [OF same] by blast+
  moreover have "\<forall>k. k \<notin> {''access-control-allow-origin'', ''access-control-allow-credentials'',
                      ''access-control-expose-headers''} \<longrightarrow> headers ?r3 k = headers r k"
    using same by (simp add: same_but_headers_def)
  ultimately show ?thesis
    by (simp only: res fst_conv snd_conv)
qed

subsection \<open>Instances\<close>

text \<open>A response that already carries an \<open>access-control-allow-origin\<close> header, and an
  allow-list that does not match the Origin: the header is neither \<open>*\<close>, nor the Origin,
  nor absent.\<close>

theorem cors_allow_origin_kept_counterexample:
  "headers (snd (executeCORSMiddleware
       \<lparr>method = ''GET'', headers = [''origin'' \<mapsto> ''https://b.example'']\<rparr>
       \<lparr>status = 200, headers = [''access-control-allow-origin'' \<mapsto> ''https://old.example''],
        headersSent = False, stream = []\<rparr>
       \<lparr>allowOrigin = Some [OriginString ''https://a.example''], allowCredentials = None,
        allowMethods = None, allowHeaders = None, maxAge = None, exposeHeaders = None\<rparr>))
     ''access-control-allow-origin''
   \<notin> {Some ''*'', Some ''https://b.example'', None}"
  by code_simp

theorem cors_allow_origin_first_match_witness:
  "request.headers \<lparr>method = ''GET'', headers = [''origin'' \<mapsto> ''https://A.example'']\<rparr> ''origin''
     = Some ''https://A.example''
   \<and> headers (snd (executeCORSMiddleware
          \<lparr>method = ''GET'', headers = [''origin'' \<mapsto> ''https://A.example'']\<rparr>
          \<lparr>status = 200, headers = Map.empty, headersSent = False, stream = []\<rparr>
          \<lparr>allowOrigin = Some [OriginString ''https://b.example'', OriginString ''https://a.example'',
                              OriginString ''*''],
           allowCredentials = None, allowMethods = None, allowHeaders = None, maxAge = None,
           exposeHeaders = None\<rparr>)) ''access-control-allow-origin''
       = Some ''https://A.example''
   \<and> entry_matches ''https://A.example'' (OriginString ''https://a.example'')
   \<and> allowOrigin_some ''https://A.example''
         ([OriginString ''https://b.example''] @ OriginString ''https://a.example'' # [OriginString ''*''])
         \<lparr>status = 200, headers = Map.empty, headersSent = False, stream = []\<rparr>
       = allowOrigin_some ''https://A.example''
         ([OriginString ''https://b.example''] @ [OriginString ''https://a.example''])
         \<lparr>status = 200, headers = Map.empty, headersSent = False, stream = []\<rparr>"
proof -
  let ?req = "\<lparr>method = ''GET'', headers = [''origin'' \<mapsto> ''https://A.example'']\<rparr>"
  let ?r = "\<lparr>status = 200, headers = Map.empty, headersSent = False, stream = []\<rparr>"
  let ?opts = "\<lparr>allowOrigin = Some [OriginString ''https://b.example'',
                   OriginString ''https://a.example'', OriginString ''*''],
           allowCredentials = None, allowMethods = None, allowHeaders = None, maxAge = None,
           exposeHeaders = None\<rparr>"
  have h: "request.headers ?req ''origin'' = Some ''https://A.example''"
    by simp
  have m: "entry_matches ''https://A.example'' (OriginString ''https://a.example'')"
    by code_simp
  have f: "first_match_spec ''https://A.example''
             [OriginString ''https://b.example'', OriginString ''https://a.example'', OriginString ''*'']
           = Some ''https://A.example''"
    by code_simp
  note inst = cors_allow_origin_first_match [OF h, of ?r ?opts]
  have c1: "headers (snd (executeCORSMiddleware ?req ?r ?opts)) ''access-control-allow-origin''
              = Some ''https://A.example''"
    using conjunct1 [OF inst] f by simp
  have c3: "allowOrigin_some ''https://A.example''
              ([OriginString ''https://b.example''] @ OriginString ''https://a.example''
                 # [OriginString ''*'']) ?r
            = allowOrigin_some ''https://A.example''
              ([OriginString ''https://b.example''] @ [OriginString ''https://a.example'']) ?r"
    using conjunct2 [OF conjunct2 [OF inst]] m by blast
  show ?thesis
    using h m c1 c3 by blast
qed

theorem cors_preflight_ends_witness:
  "request.headers \<lparr>method = ''OPTIONS'', headers = [''origin'' \<mapsto> ''https://a.example'']\<rparr> ''origin''
     = Some ''https://a.example''
   \<and> method \<lparr>method = ''OPTIONS'', headers = [''origin'' \<mapsto> ''https://a.example'']\<rparr> = ''OPTIONS''
   \<and> fst (executeCORSMiddleware
          \<lparr>method = ''OPTIONS'', headers = [''origin'' \<mapsto> ''https://a.example'']\<rparr>
          \<lparr>status = 404, headers = Map.empty, headersSent = False, stream = []\<rparr>
          \<lparr>allowOrigin = Some [], allowCredentials = Some True, allowMethods = Some [''GET''],
           allowHeaders = None, maxAge = Some (Num 0), exposeHeaders = None\<rparr>) = End
   \<and> status (snd (executeCORSMiddleware
          \<lparr>method = ''OPTIONS'', headers = [''origin'' \<mapsto> ''https://a.example'']\<rparr>
          \<lparr>status = 404, headers = Map.empty, headersSent = False, stream = []\<rparr>
          \<lparr>allowOrigin = Some [], allowCredentials = Some True, allowMethods = Some [''GET''],
           allowHeaders = None, maxAge = Some (Num 0), exposeHeaders = None\<rparr>)) = 200
   \<and> stream (snd (executeCORSMiddleware
          \<lparr>method = ''OPTIONS'', headers = [''origin'' \<mapsto> ''https://a.example'']\<rparr>
          \<lparr>status = 404, headers = Map.empty, headersSent = False, stream = []\<rparr>
          \<lparr>allowOrigin = Some [], allowCredentials = Some True, allowMethods = Some [''GET''],
           allowHeaders = None, maxAge = Some (Num 0), exposeHeaders = None\<rparr>))
       = [StreamEnd (Some ''OK'')]"
proof -
  let ?req = "\<lparr>method = ''OPTIONS'', headers = [''origin'' \<mapsto> ''https://a.example'']\<rparr>"
  have h: "request.headers ?req ''origin'' = Some ''https://a.example''" and m: "method ?req = ''OPTIONS''"
    by simp_all
  show ?thesis
    using h m cors_preflight_ends [OF h m,
        of "\<lparr>status = 404, headers = Map.empty, headersSent = False, stream = []\<rparr>"
           "\<lparr>allowOrigin = Some [], allowCredentials = Some True, allowMethods = Some [''GET''],
           allowHeaders = None, maxAge = Some (Num 0), exposeHeaders = None\<rparr>"]
    by simp
qed

theorem cors_simple_frame_witness:
  "request.headers \<lparr>method = ''GET'', headers = [''origin'' \<mapsto> ''https://a.example'']\<rparr> ''origin''
     = Some ''https://a.example''
   \<and> method \<lparr>method = ''GET'', headers = [''origin'' \<mapsto> ''https://a.example'']\<rparr> \<noteq> ''OPTIONS''
   \<and> fst (executeCORSMiddleware
          \<lparr>method = ''GET'', headers = [''origin'' \<mapsto> ''https://a.example'']\<rparr>
          \<lparr>status = 404, headers = [''etag'' \<mapsto> ''x''], headersSent = False, stream = []\<rparr>
          \<lparr>allowOrigin = None, allowCredentials = Some True, allowMethods = None,
           allowHeaders = None, maxAge = None, exposeHeaders = Some [''etag'']\<rparr>) = Continue
   \<and> status (snd (executeCORSMiddleware
          \<lparr>method = ''GET'', headers = [''origin'' \<mapsto> ''https://a.example'']\<rparr>
          \<lparr>status = 404, headers = [''etag'' \<mapsto> ''x''], headersSent = False, stream = []\<rparr>
          \<lparr>allowOrigin = None, allowCredentials = Some True, allowMethods = None,
           allowHeaders = None, maxAge = None, exposeHeaders = Some [''etag'']\<rparr>)) = 404
   \<and> stream (snd (executeCORSMiddleware
          \<lparr>method = ''GET'', headers = [''origin'' \<mapsto> ''https://a.example'']\<rparr>
          \<lparr>status = 404, headers = [''etag'' \<mapsto> ''x''], headersSent = False, stream = []\<rparr>
          \<lparr>allowOrigin = None, allowCredentials = Some True, allowMethods = None,
           allowHeaders = None, maxAge = None, exposeHeaders = Some [''etag'']\<rparr>)) = []
   \<and> ''etag'' \<notin> {''access-control-allow-origin'', ''access-control-allow-credentials'',
                    ''access-control-expose-headers''}
   \<and> headers (snd (executeCORSMiddleware
          \<lparr>method = ''GET'', headers = [''origin'' \<mapsto> ''https://a.example'']\<rparr>
          \<lparr>status = 404, headers = [''etag'' \<mapsto> ''x''], headersSent = False, stream = []\<rparr>
          \<lparr>allowOrigin = None, allowCredentials = Some True, allowMethods = None,
           allowHeaders = None, maxAge = None, exposeHeaders = Some [''etag'']\<rparr>)) ''etag''
       = Some ''x''"
proof -
  let ?req = "\<lparr>method = ''GET'', headers = [''origin'' \<mapsto> ''https://a.example'']\<rparr>"
  have h: "request.headers ?req ''origin'' = Some ''https://a.example''"
    and m: "method ?req \<noteq> ''OPTIONS''"
    and k: "''etag'' \<notin> {''access-control-allow-origin'', ''access-control-allow-credentials'',
                    ''access-control-expose-headers''}"
    by simp_all
  show ?thesis
    using h m k cors_simple_frame [OF h m,
        of "\<lparr>status = 404, headers = [''etag'' \<mapsto> ''x''], headersSent = False, stream = []\<rparr>"
           "\<lparr>allowOrigin = None, allowCredentials = Some True, allowMethods = None,
           allowHeaders = None, maxAge = None, exposeHeaders = Some [''etag'']\<rparr>"]
    by simp
qed

section \<open>Splitting and joining\<close>

lemma js_split_not_Nil: "js_split c s \<noteq> []"
  by (induction s) (auto split: list.splits)

lemma js_split_sep_free: "c \<notin> set s \<Longrightarrow> js_split c s = [s]"
  by (induction s) auto

lemma js_split_append: "c \<notin> set a \<Longrightarrow> js_split c (a @ c # b) = a # js_split c b"
  by (induction a) auto

lemma js_split_elems: "x \<in> set (js_split c s) \<Longrightarrow> c \<notin> set x"
proof (induction s arbitrary: x)
  case Nil
  then show ?case by simp
next
  case (Cons a s)
  show ?case
  proof (cases "a = c")
    case True
    with Cons show ?thesis by auto
  next
    case False
    obtain y ys where ys: "js_split c s = y # ys"
      using js_split_not_Nil [of c s] by (cases "js_split c s") auto
    with Cons False show ?thesis by auto
  qed
qed

lemma js_split_join:
  "xs \<noteq> [] \<Longrightarrow> \<forall>x\<in>set xs. c \<notin> set x \<Longrightarrow> js_split c (js_join [c] xs) = xs"
proof (induction "[c]" xs rule: js_join.induct)
  case 1
  then show ?case by simp
next
  case (2 a)
  then show ?case by (simp add: js_split_sep_free)
next
  case (3 a b bs)
  then show ?case by (simp add: js_split_append)
qed

lemma js_split_segments:
  "c \<notin> set a \<Longrightarrow> \<forall>b\<in>set bs. c \<notin> set b \<Longrightarrow>
   js_split c (a @ concat (map ((#) c) bs)) = a # bs"
proof (induction bs arbitrary: a)
  case Nil
  then show ?case by (simp add: js_split_sep_free)
next
  case (Cons b bs)
  then show ?case by (simp add: js_split_append)
qed

lemma key_value_split:
  "CHR ''='' \<notin> set k \<Longrightarrow> CHR ''='' \<notin> set v \<Longrightarrow> js_split CHR ''='' (k @ CHR ''='' # v) = [k, v]"
  by (simp add: js_split_append js_split_sep_free)

section \<open>The buffer encoder: charset resolution\<close>

lemma parseCharset_frame:
  assumes "parseCharset options st = Inr (cs, st')"
  shows "hasSetJSON st' = hasSetJSON st \<and> headersSent (res st') = headersSent (res st)
         \<and> encoding st' = encoding st \<and> destination st' = destination st
         \<and> pendingChunks st' = pendingChunks st \<and> endCalled st' = endCalled st"
  using assms
  by (auto simp add: parseCharset_def Let_def split: option.splits list.splits sum.splits if_splits)

lemma resolve_encoding_cached:
  "encoding st = Some e \<Longrightarrow> resolve_encoding options st = Inr (e, st)"
  by (simp add: resolve_encoding_def)

lemma resolve_encoding_frame:
  assumes "resolve_encoding options st = Inr (e, st')"
  shows "encoding st' = Some e \<and> hasSetJSON st' = hasSetJSON st
         \<and> headersSent (res st') = headersSent (res st) \<and> destination st' = destination st
         \<and> pendingChunks st' = pendingChunks st \<and> endCalled st' = endCalled st"
proof (cases "encoding st")
  case None
  then obtain cs st1 where p: "parseCharset options st = Inr (cs, st1)"
    and st': "st' = st1\<lparr>encoding := Some (charsetAsBufferEncoding cs)\<rparr>"
    and e: "e = charsetAsBufferEncoding cs"
    using assms by (auto simp add: resolve_encoding_def split: sum.splits)
  from parseCharset_frame [OF p] show ?thesis
    by (simp add: st' e)
next
  case (Some e0)
  with assms show ?thesis by (simp add: resolve_encoding_def)
qed

text \<open>
  Claim C10. With \<open>setCharset\<close> configured, headers unsent and no charset resolved yet,
  resolving the charset of a response that has no \<open>content-type\<close> header gives the
  default charset (the configured one, or \<open>utf-8\<close>) and sets the header to
  \<open>;charset=\<close> followed by that charset: a value that starts with a semicolon and
  names no media type.
\<close>

theorem parseCharset_without_content_type:
  assumes "setCharset options" and "headers (res st) ''content-type'' = None"
    and "\<not> headersSent (res st)" and "\<not> truthy (charset st)"
  shows "\<exists>st'. parseCharset options st = Inr (or_else (defaultCharset options) ''utf-8'', st')
           \<and> headers (res st') ''content-type''
               = Some ('';charset='' @ or_else (defaultCharset options) ''utf-8'')"
  using assms
  by (cases "charset st")
     (auto simp add: parseCharset_def truthy_def or_else_def Let_def split: list.splits)

theorem parseCharset_without_content_type_witness:
  "setCharset \<lparr>defaultCharset = Some ''latin1'', setCharset = True, setJSON = False\<rparr>
   \<and> headers (res \<lparr>res = \<lparr>status = 200, headers = Map.empty, headersSent = False, stream = []\<rparr>,
                    destination = [] :: string option stream_call list, endCalled = False,
                    pendingChunks = [], charset = None, encoding = None, hasSetJSON = False\<rparr>)
         ''content-type'' = None
   \<and> \<not> headersSent (res \<lparr>res = \<lparr>status = 200, headers = Map.empty, headersSent = False,
                                   stream = []\<rparr>,
                    destination = [] :: string option stream_call list, endCalled = False,
                    pendingChunks = [], charset = None, encoding = None, hasSetJSON = False\<rparr>)
   \<and> \<not> truthy (charset \<lparr>res = \<lparr>status = 200, headers = Map.empty, headersSent = False,
                                 stream = []\<rparr>,
                    destination = [] :: string option stream_call list, endCalled = False,
                    pendingChunks = [], charset = None, encoding = None, hasSetJSON = False\<rparr>)
   \<and> (\<exists>st'. parseCharset \<lparr>defaultCharset = Some ''latin1'', setCharset = True, setJSON = False\<rparr>
               \<lparr>res = \<lparr>status = 200, headers = Map.empty, headersSent = False, stream = []\<rparr>,
                destination = [] :: string option stream_call list, endCalled = False,
                pendingChunks = [], charset = None, encoding = None, hasSetJSON = False\<rparr>
             = Inr (''latin1'', st')
           \<and> headers (res st') ''content-type'' = Some '';charset=latin1'')"
proof -
  let ?opts = "\<lparr>defaultCharset = Some ''latin1'', setCharset = True, setJSON = False\<rparr>"
  let ?st = "\<lparr>res = \<lparr>status = 200, headers = Map.empty, headersSent = False, stream = []\<rparr>,
                destination = [] :: string option stream_call list, endCalled = False,
                pendingChunks = [], charset = None, encoding = None, hasSetJSON = False\<rparr>"
  have h: "setCharset ?opts" "headers (res ?st) ''content-type'' = None"
    "\<not> headersSent (res ?st)" "\<not> truthy (charset ?st)"
    by (simp_all add: truthy_def)
  have d: "or_else (defaultCharset ?opts) ''utf-8'' = ''latin1''"
    by (simp add: or_else_def)
  from parseCharset_without_content_type [OF h] d h show ?thesis
    by simp
qed


text \<open>A directive \<open>charset\<close> without \<open>=\<close>, and one with an empty value.\<close>

lemma bare_charset_directive:
  "parseCharset_some (js_split CHR '';'' ''text/plain;charset'') None = Inl TypeError"
  by code_simp

text \<open>
  Claim C4 asks that charset resolution never faults and falls back to the default
  charset on a malformed header. For the content type \<open>text/plain;charset\<close> the code
  throws instead, whatever the options and the rest of the state: the directive has no
  second part, \<open>charset\<close> becomes \<open>undefined\<close>, and \<open>charset.indexOf\<close> is called
  on it.
\<close>

theorem parseCharset_bare_charset_faults:
  "parseCharset options
     (st\<lparr>charset := None,
         res := (res st)\<lparr>headers := (headers (res st))(''content-type'' \<mapsto> ''text/plain;charset'')\<rparr>\<rparr>)
   = Inl TypeError"
  by (simp add: parseCharset_def truthy_def template_def bare_charset_directive
      del: js_split.simps)

text \<open>With an \<open>=\<close> and nothing after it the value is the empty string, and the default
  is used.\<close>

lemma empty_charset_directive:
  "parseCharset_some (js_split CHR '';'' ''text/plain;charset='') None = Inr (Some [])"
  by code_simp

lemma parseCharset_empty_charset_defaults:
  "\<exists>st'. parseCharset options
     (st\<lparr>charset := None,
         res := (res st)\<lparr>headers := (headers (res st))(''content-type'' \<mapsto> ''text/plain;charset='')\<rparr>\<rparr>)
   = Inr (or_else (defaultCharset options) ''utf-8'', st')"
  by (simp add: parseCharset_def truthy_def template_def empty_charset_directive Let_def
      del: js_split.simps)


section \<open>The buffer encoder: the JSON media type\<close>

lemma setJSONMediaType_segments:
  assumes "\<not> hasSetJSON st"
  shows "\<exists>v. headers (res (setJSONMediaType st)) ''content-type'' = Some v
           \<and> js_split CHR '';'' v
               = map (\<lambda>directive. if CHR ''='' \<in> set directive then directive
                                    else ''application/json'')
                   (js_split CHR '';'' (or_else (headers (res st) ''content-type'') []))"
proof -
  let ?f = "\<lambda>directive. if CHR ''='' \<in> set directive then directive else ''application/json''"
  let ?old = "js_split CHR '';'' (or_else (headers (res st) ''content-type'') [])"
  have "map ?f ?old \<noteq> []"
    by (simp add: js_split_not_Nil)
  moreover have "\<forall>x\<in>set (map ?f ?old). CHR '';'' \<notin> set x"
    by (auto dest: js_split_elems)
  ultimately have "js_split CHR '';'' (js_join '';'' (map ?f ?old)) = map ?f ?old"
    by (rule js_split_join)
  then show ?thesis
    using assms by (simp add: setJSONMediaType_def Let_def)
qed

lemma setJSONMediaType_flags:
  "hasSetJSON (setJSONMediaType st)" "encoding (setJSONMediaType st) = encoding st"
  by (simp_all add: setJSONMediaType_def Let_def)

lemma convert_chunk_settled:
  assumes "hasSetJSON st" and "encoding st \<noteq> None"
    and "convert_chunk bufferFrom stringify options any st = Inr (chunk, st')"
  shows "st' = st"
proof -
  from assms(2) obtain e where e: "encoding st = Some e" by auto
  show ?thesis
    using assms(1,3) resolve_encoding_cached [OF e, of options]
    by (cases any) (auto simp add: convert_chunk_def split: option.splits)
qed

lemma on_data_settled:
  assumes "hasSetJSON st" and "encoding st \<noteq> None"
    and "on_data bufferFrom stringify options any st = Inr st'"
  shows "res st' = res st \<and> hasSetJSON st' \<and> encoding st' \<noteq> None"
proof -
  from assms(3) obtain chunk st1
    where c: "convert_chunk bufferFrom stringify options any st = Inr (chunk, st1)"
      and st': "st' = (if hasEndCalled st1
                       then st1\<lparr>pendingChunks := pendingChunks st1 @ [chunk]\<rparr>
                       else st1\<lparr>destination := destination st1 @ [StreamWrite chunk]\<rparr>)"
    by (auto simp add: on_data_def split: sum.splits if_splits)
  from convert_chunk_settled [OF assms(1,2) c] have "st1 = st" .
  with st' assms(1,2) show ?thesis by simp
qed

lemma on_data_all_settled:
  "hasSetJSON st \<Longrightarrow> encoding st \<noteq> None \<Longrightarrow>
   on_data_all bufferFrom stringify options chunks st = Inr st' \<Longrightarrow>
   res st' = res st \<and> hasSetJSON st'"
proof (induction chunks arbitrary: st)
  case Nil
  then show ?case by simp
next
  case (Cons any chunks)
  from Cons.prems(3) obtain st1
    where d: "on_data bufferFrom stringify options any st = Inr st1"
      and r: "on_data_all bufferFrom stringify options chunks st1 = Inr st'"
    by (auto split: sum.splits)
  from on_data_settled [OF Cons.prems(1,2) d]
  have s1: "res st1 = res st" "hasSetJSON st1" "encoding st1 \<noteq> None" by auto
  from Cons.IH [OF s1(2,3) r] s1(1) show ?case by simp
qed

lemma convert_chunk_object_rewrites:
  assumes "convert_chunk bufferFrom stringify options (IsObject obj) st = Inr (chunk, st')"
    and "setJSON options" and "\<not> hasSetJSON st" and "\<not> headersSent (res st)"
  shows "\<exists>e st1. resolve_encoding options st = Inr (e, st1) \<and> \<not> hasSetJSON st1
           \<and> st' = setJSONMediaType st1 \<and> encoding st' \<noteq> None"
proof -
  from assms(1) obtain e st1 json
    where r: "resolve_encoding options st = Inr (e, st1)"
      and st': "st' = (if setJSON options \<and> \<not> hasSetJSON st1 \<and> \<not> headersSent (res st1)
                       then setJSONMediaType st1 else st1)"
    by (auto simp add: convert_chunk_def split: sum.splits option.splits)
  from resolve_encoding_frame [OF r] assms(2-4)
  have "st' = setJSONMediaType st1" "\<not> hasSetJSON st1" "encoding st1 = Some e"
    by (simp_all add: st')
  with r show ?thesis
    by (auto simp add: setJSONMediaType_flags)
qed

text \<open>
  Claim C5, as the code has it. When the listener receives an object while \<open>setJSON\<close>
  is configured, the JSON flag is unset and headers are unsent, it rewrites the
  \<open>content-type\<close> header (as left by charset resolution): every \<open>;\<close>-separated
  segment without \<open>=\<close> becomes \<open>application/json\<close>, not only the first one, and
  every segment with \<open>=\<close> is kept; the number of segments is unchanged. The rewrite
  sets the JSON flag with the encoding resolved, and from such a state no run of further
  chunks changes the response: the header is rewritten at most once.
\<close>

theorem setJSON_rewrites_bare_segments_once:
  "(convert_chunk bufferFrom stringify options (IsObject obj) st = Inr (chunk, st')
      \<and> setJSON options \<and> \<not> hasSetJSON st \<and> \<not> headersSent (res st)
    \<longrightarrow> (\<exists>e st1 v. resolve_encoding options st = Inr (e, st1)
            \<and> st' = setJSONMediaType st1 \<and> hasSetJSON st' \<and> encoding st' \<noteq> None
            \<and> headers (res st') ''content-type'' = Some v
            \<and> js_split CHR '';'' v
                = map (\<lambda>directive. if CHR ''='' \<in> set directive then directive
                                     else ''application/json'')
                    (js_split CHR '';'' (or_else (headers (res st1) ''content-type'') []))))
   \<and> (hasSetJSON st \<and> encoding st \<noteq> None
        \<and> on_data_all bufferFrom stringify options chunks st = Inr st''
      \<longrightarrow> res st'' = res st \<and> hasSetJSON st'')"
proof (intro conjI impI)
  assume a: "convert_chunk bufferFrom stringify options (IsObject obj) st = Inr (chunk, st')
      \<and> setJSON options \<and> \<not> hasSetJSON st \<and> \<not> headersSent (res st)"
  then obtain e st1 where r: "resolve_encoding options st = Inr (e, st1)"
    and n: "\<not> hasSetJSON st1" and st': "st' = setJSONMediaType st1"
    and enc: "encoding st' \<noteq> None"
    using convert_chunk_object_rewrites [of bufferFrom stringify options obj st chunk st']
    by blast
  from setJSONMediaType_segments [OF n] obtain v
    where v: "headers (res (setJSONMediaType st1)) ''content-type'' = Some v"
      "js_split CHR '';'' v
         = map (\<lambda>directive. if CHR ''='' \<in> set directive then directive
                              else ''application/json'')
             (js_split CHR '';'' (or_else (headers (res st1) ''content-type'') []))"
    by blast
  show "\<exists>e st1 v. resolve_encoding options st = Inr (e, st1)
            \<and> st' = setJSONMediaType st1 \<and> hasSetJSON st' \<and> encoding st' \<noteq> None
            \<and> headers (res st') ''content-type'' = Some v
            \<and> js_split CHR '';'' v
                = map (\<lambda>directive. if CHR ''='' \<in> set directive then directive
                                     else ''application/json'')
                    (js_split CHR '';'' (or_else (headers (res st1) ''content-type'') []))"
    using r st' enc v setJSONMediaType_flags(1) [of st1] by blast
next
  assume "hasSetJSON st \<and> encoding st \<noteq> None
        \<and> on_data_all bufferFrom stringify options chunks st = Inr st''"
  then show "res st'' = res st" "hasSetJSON st''"
    using on_data_all_settled [of st bufferFrom stringify options chunks st''] by blast+
qed


text \<open>The content type \<open>text/plain;foo;charset=utf-8\<close>: the second segment, \<open>foo\<close>,
  is rewritten as well.\<close>

theorem setJSON_rewrites_second_segment_counterexample:
  "case on_data (\<lambda>s e. s) (\<lambda>obj :: unit. Some ''{}'')
          \<lparr>defaultCharset = None, setCharset = False, setJSON = True\<rparr> (IsObject ())
          \<lparr>res = \<lparr>status = 200,
                  headers = [''content-type'' \<mapsto> ''text/plain;foo;charset=utf-8''],
                  headersSent = False, stream = []\<rparr>,
           destination = [], endCalled = False, pendingChunks = [], charset = None,
           encoding = None, hasSetJSON = False\<rparr> of
     Inl e \<Rightarrow> False
   | Inr st' \<Rightarrow>
       headers (res st') ''content-type''
         = Some ''application/json;application/json;charset=utf-8''
       \<and> at_index (js_split CHR '';'' ''text/plain;foo;charset=utf-8'') 1 = Some ''foo''
       \<and> at_index (js_split CHR '';'' ''application/json;application/json;charset=utf-8'') 1
           = Some ''application/json''"
  by code_simp

lemma utf8_charset_directive:
  "parseCharset_some (js_split CHR '';'' ''text/plain;charset=utf-8'') None = Inr (Some ''utf-8'')"
  by code_simp

lemma utf8_json_rewrite:
  "js_join '';''
     (map (\<lambda>directive. if CHR ''='' \<in> set directive then directive else ''application/json'')
        (js_split CHR '';'' ''text/plain;charset=utf-8''))
   = ''application/json;charset=utf-8''"
  by code_simp

theorem setJSON_rewrites_bare_segments_once_witness:
  "(convert_chunk (\<lambda>s e. s) (\<lambda>obj :: unit. Some ''{}'')
       \<lparr>defaultCharset = None, setCharset = False, setJSON = True\<rparr> (IsObject ())
       \<lparr>res = \<lparr>status = 200, headers = [''content-type'' \<mapsto> ''text/plain;charset=utf-8''],
               headersSent = False, stream = []\<rparr>,
        destination = [], endCalled = False, pendingChunks = [], charset = None,
        encoding = None, hasSetJSON = False\<rparr>
     = Inr (Some ''{}'',
        \<lparr>res = \<lparr>status = 200, headers = [''content-type'' \<mapsto> ''application/json;charset=utf-8''],
                headersSent = False, stream = []\<rparr>,
         destination = [], endCalled = False, pendingChunks = [], charset = Some ''utf-8'',
         encoding = Some utf8, hasSetJSON = True\<rparr>)
    \<and> (\<exists>v. headers (res
             \<lparr>res = \<lparr>status = 200,
                     headers = [''content-type'' \<mapsto> ''application/json;charset=utf-8''],
                     headersSent = False, stream = []\<rparr>,
              destination = [] :: string option stream_call list, endCalled = False,
              pendingChunks = [], charset = Some ''utf-8'',
              encoding = Some utf8, hasSetJSON = True\<rparr>) ''content-type'' = Some v
          \<and> js_split CHR '';'' v
              = map (\<lambda>directive. if CHR ''='' \<in> set directive then directive
                                   else ''application/json'')
                  (js_split CHR '';'' ''text/plain;charset=utf-8'')))
   \<and> (on_data_all (\<lambda>s e. s) (\<lambda>obj :: unit. Some ''{}'')
         \<lparr>defaultCharset = None, setCharset = False, setJSON = True\<rparr> [IsObject ()]
         \<lparr>res = \<lparr>status = 200, headers = [''content-type'' \<mapsto> ''application/json;charset=utf-8''],
                headersSent = False, stream = []\<rparr>,
          destination = [], endCalled = False, pendingChunks = [], charset = Some ''utf-8'',
          encoding = Some utf8, hasSetJSON = True\<rparr>
       = Inr \<lparr>res = \<lparr>status = 200,
                  headers = [''content-type'' \<mapsto> ''application/json;charset=utf-8''],
                  headersSent = False, stream = []\<rparr>,
           destination = [StreamWrite (Some ''{}'')], endCalled = False, pendingChunks = [],
           charset = Some ''utf-8'', encoding = Some utf8, hasSetJSON = True\<rparr>
      \<and> res \<lparr>res = \<lparr>status = 200,
                  headers = [''content-type'' \<mapsto> ''application/json;charset=utf-8''],
                  headersSent = False, stream = []\<rparr>,
           destination = [StreamWrite (Some ''{}'')], endCalled = False, pendingChunks = [],
           charset = Some ''utf-8'', encoding = Some utf8, hasSetJSON = True\<rparr>
        = res \<lparr>res = \<lparr>status = 200,
                  headers = [''content-type'' \<mapsto> ''application/json;charset=utf-8''],
                  headersSent = False, stream = []\<rparr>,
           destination = [] :: string option stream_call list, endCalled = False,
           pendingChunks = [], charset = Some ''utf-8'', encoding = Some utf8,
           hasSetJSON = True\<rparr>)"
proof -
  let ?F = "\<lambda>(s :: string) (e :: BufferEncoding). s"
  let ?S = "\<lambda>obj :: unit. Some ''{}''"
  let ?opts = "\<lparr>defaultCharset = None, setCharset = False, setJSON = True\<rparr>"
  let ?st = "\<lparr>res = \<lparr>status = 200, headers = [''content-type'' \<mapsto> ''text/plain;charset=utf-8''],
               headersSent = False, stream = []\<rparr>,
        destination = [] :: string option stream_call list, endCalled = False,
        pendingChunks = [], charset = None, encoding = None, hasSetJSON = False\<rparr>"
  let ?st' = "\<lparr>res = \<lparr>status = 200, headers = [''content-type'' \<mapsto> ''application/json;charset=utf-8''],
                headersSent = False, stream = []\<rparr>,
         destination = [] :: string option stream_call list, endCalled = False,
         pendingChunks = [], charset = Some ''utf-8'',
         encoding = Some utf8, hasSetJSON = True\<rparr>"
  let ?st'' = "\<lparr>res = \<lparr>status = 200,
                  headers = [''content-type'' \<mapsto> ''application/json;charset=utf-8''],
                  headersSent = False, stream = []\<rparr>,
           destination = [StreamWrite (Some ''{}'')], endCalled = False, pendingChunks = [],
           charset = Some ''utf-8'', encoding = Some utf8, hasSetJSON = True\<rparr>"
  let ?st1 = "?st\<lparr>charset := Some ''utf-8'', encoding := Some utf8\<rparr>"
  have r: "resolve_encoding ?opts ?st = Inr (utf8, ?st1)"
    by (simp add: resolve_encoding_def parseCharset_def truthy_def template_def
        utf8_charset_directive charsetAsBufferEncoding_def del: js_split.simps)
  have c: "convert_chunk ?F ?S ?opts (IsObject ()) ?st = Inr (Some ''{}'', ?st')"
    by (simp add: convert_chunk_def r setJSONMediaType_def or_else_def utf8_json_rewrite
        del: js_split.simps)
  have h: "setJSON ?opts \<and> \<not> hasSetJSON ?st \<and> \<not> headersSent (res ?st)"
    by simp
  have d: "on_data_all ?F ?S ?opts [IsObject ()] ?st' = Inr ?st''"
    by (simp add: on_data_def convert_chunk_def resolve_encoding_def hasEndCalled_def)
  have h': "hasSetJSON ?st' \<and> encoding ?st' \<noteq> None"
    by simp
  from setJSON_rewrites_bare_segments_once
    [of ?F ?S ?opts "()" ?st "Some ''{}''" ?st' "[]" ?st] c h
  obtain e st1 v where v: "resolve_encoding ?opts ?st = Inr (e, st1)"
    "headers (res ?st') ''content-type'' = Some v"
    "js_split CHR '';'' v
       = map (\<lambda>directive. if CHR ''='' \<in> set directive then directive else ''application/json'')
           (js_split CHR '';'' (or_else (headers (res st1) ''content-type'') []))"
    by blast
  from v(1) r have "st1 = ?st1" by simp
  then have "or_else (headers (res st1) ''content-type'') [] = ''text/plain;charset=utf-8''"
    by (simp add: or_else_def)
  with v have first: "\<exists>v. headers (res ?st') ''content-type'' = Some v
          \<and> js_split CHR '';'' v
              = map (\<lambda>directive. if CHR ''='' \<in> set directive then directive
                                   else ''application/json'')
                  (js_split CHR '';'' ''text/plain;charset=utf-8'')"
    by (simp del: js_split.simps)
  from setJSON_rewrites_bare_segments_once
    [of ?F ?S ?opts "()" ?st' "Some ''{}''" ?st' "[IsObject ()]" ?st''] d h'
  have second: "res ?st'' = res ?st'"
    by blast
  from c first d second show ?thesis
    by blast
qed

section \<open>The buffer encoder: chunks that arrive after end was requested\<close>

lemma flush_pending_stops_at_undefined:
  "flush_pending pending dest
     = (drop (Suc (length (takeWhile (\<lambda>c. c \<noteq> None) pending))) pending,
        dest @ map StreamWrite (takeWhile (\<lambda>c. c \<noteq> None) pending))"
  by (induction pending dest rule: flush_pending.induct) simp_all

lemma on_end_destination:
  "destination (on_end st)
     = destination st @ map StreamWrite (takeWhile (\<lambda>c. c \<noteq> None) (pendingChunks st))
         @ [StreamEnd None]"
  by (simp add: on_end_def flush_pending_stops_at_undefined)

lemma convert_chunk_defined:
  "convert_chunk bufferFrom stringify options any st = Inr (chunk, st') \<Longrightarrow>
   any \<noteq> IsOther \<Longrightarrow> chunk \<noteq> None"
  by (cases any) (auto simp add: convert_chunk_def split: sum.splits option.splits)

lemma convert_chunk_frame:
  assumes "convert_chunk bufferFrom stringify options any st = Inr (chunk, st')"
  shows "destination st' = destination st \<and> pendingChunks st' = pendingChunks st
         \<and> endCalled st' = endCalled st"
proof (cases any)
  case (IsBuffer b)
  with assms show ?thesis by (simp add: convert_chunk_def)
next
  case (IsString s)
  with assms obtain e where "resolve_encoding options st = Inr (e, st')"
    by (auto simp add: convert_chunk_def split: sum.splits)
  from resolve_encoding_frame [OF this] show ?thesis by simp
next
  case (IsObject obj)
  with assms obtain e st1 where r: "resolve_encoding options st = Inr (e, st1)"
    and "st' = setJSONMediaType st1 \<or> st' = st1"
    by (auto simp add: convert_chunk_def split: sum.splits option.splits if_splits)
  with resolve_encoding_frame [OF r] show ?thesis
    by (auto simp add: setJSONMediaType_def Let_def)
next
  case IsOther
  with assms show ?thesis by (simp add: convert_chunk_def)
qed

lemma on_data_late:
  assumes "hasEndCalled st" and "on_data bufferFrom stringify options any st = Inr st'"
  shows "\<exists>chunk. pendingChunks st' = pendingChunks st @ [chunk]
           \<and> (any \<noteq> IsOther \<longrightarrow> chunk \<noteq> None)
           \<and> destination st' = destination st \<and> hasEndCalled st'"
proof -
  from assms(2) obtain chunk st1
    where c: "convert_chunk bufferFrom stringify options any st = Inr (chunk, st1)"
      and st': "st' = (if hasEndCalled st1
                       then st1\<lparr>pendingChunks := pendingChunks st1 @ [chunk]\<rparr>
                       else st1\<lparr>destination := destination st1 @ [StreamWrite chunk]\<rparr>)"
    by (auto simp add: on_data_def split: sum.splits if_splits)
  from convert_chunk_frame [OF c] assms(1) convert_chunk_defined [OF c] st'
  show ?thesis
    by (auto simp add: hasEndCalled_def)
qed

lemma on_data_all_late:
  "hasEndCalled st \<Longrightarrow> IsOther \<notin> set chunks \<Longrightarrow>
   on_data_all bufferFrom stringify options chunks st = Inr st' \<Longrightarrow>
   \<exists>bs. length bs = length chunks \<and> pendingChunks st' = pendingChunks st @ map Some bs
        \<and> destination st' = destination st"
proof (induction chunks arbitrary: st)
  case Nil
  then show ?case by simp
next
  case (Cons any chunks)
  from Cons.prems(3) obtain st1
    where d: "on_data bufferFrom stringify options any st = Inr st1"
      and r: "on_data_all bufferFrom stringify options chunks st1 = Inr st'"
    by (auto split: sum.splits)
  from on_data_late [OF Cons.prems(1) d] Cons.prems(2)
  obtain b where b: "pendingChunks st1 = pendingChunks st @ [Some b]"
    "destination st1 = destination st" "hasEndCalled st1"
    by auto
  from Cons.IH [OF b(3) _ r] Cons.prems(2)
  obtain bs where bs: "length bs = length chunks"
    "pendingChunks st' = pendingChunks st1 @ map Some bs" "destination st' = destination st1"
    by auto
  have "length (b # bs) = length (any # chunks)"
    "pendingChunks st' = pendingChunks st @ map Some (b # bs)"
    "destination st' = destination st"
    using b bs by simp_all
  then show ?case by blast
qed

lemma late_chunks_without_undefined_are_flushed:
  assumes "hasEndCalled st" and "pendingChunks st = []" and "IsOther \<notin> set chunks"
    and "on_data_all bufferFrom stringify options chunks st = Inr st'"
  shows "\<exists>bs. length bs = length chunks \<and> pendingChunks st' = map Some bs
           \<and> destination (on_end st')
               = destination st @ map (\<lambda>b. StreamWrite (Some b)) bs @ [StreamEnd None]"
proof -
  from on_data_all_late [OF assms(1,3,4)] assms(2)
  obtain bs where bs: "length bs = length chunks" "pendingChunks st' = map Some bs"
    "destination st' = destination st"
    by auto
  have tw: "map StreamWrite (takeWhile (\<lambda>c. c \<noteq> None) (map Some bs))
              = map (\<lambda>b. StreamWrite (Some b)) bs"
    by (induction bs) simp_all
  have "destination (on_end st')
          = destination st @ map (\<lambda>b. StreamWrite (Some b)) bs @ [StreamEnd None]"
    by (simp only: on_end_destination bs(2,3) tw)
  with bs(1,2) show ?thesis by blast
qed

text \<open>
  Claim C1 asks that every chunk queued between the request to end and the completion be
  written to the destination, in arrival order, before the destination is ended. Here
  \<open>a\<close> is written, end is requested, and then a value that is neither a \<open>Buffer\<close>,
  a string nor an object arrives, followed by the string \<open>b\<close>: \<open>undefined\<close> is
  queued before the bytes of \<open>b\<close>, the loop of the \<open>end\<close> listener stops at it, and the
  destination is ended without \<open>b\<close>.
\<close>

theorem late_chunk_behind_undefined_is_lost:
  "case snd (executeBufferEncoderMiddleware
               \<lparr>method = ''GET'', headers = Map.empty\<rparr>
               \<lparr>status = 200, headers = Map.empty, headersSent = False, stream = []\<rparr>) of
     None \<Rightarrow> False
   | Some st0 \<Rightarrow>
       (case on_data bufferFrom stringify
               \<lparr>defaultCharset = None, setCharset = False, setJSON = False\<rparr> (IsString ''a'') st0 of
          Inl e \<Rightarrow> False
        | Inr st1 \<Rightarrow>
            (case on_data_all bufferFrom stringify
                    \<lparr>defaultCharset = None, setCharset = False, setJSON = False\<rparr>
                    [IsOther, IsString ''b''] (end_requested st1) of
               Inl e \<Rightarrow> False
             | Inr st2 \<Rightarrow>
                 pendingChunks st2 = [None, Some (bufferFrom ''b'' utf8)]
                 \<and> destination (on_end st2)
                     = [StreamWrite (Some (bufferFrom ''a'' utf8)), StreamEnd None]))"
  by (simp add: executeBufferEncoderMiddleware_def on_data_def convert_chunk_def
      resolve_encoding_def parseCharset_def truthy_def or_else_def charsetAsBufferEncoding_def
      hasEndCalled_def end_requested_def on_end_def Let_def)

section \<open>Numbers as text\<close>

lemma dropWhile_hd: "s \<noteq> [] \<Longrightarrow> \<not> P (hd s) \<Longrightarrow> dropWhile P s = s"
  by (cases s) simp_all

lemma trim_id:
  assumes "s \<noteq> []" and "\<not> isWhiteSpace (hd s)" and "\<not> isWhiteSpace (last s)"
  shows "trim s = s"
proof -
  have "dropWhile isWhiteSpace s = s"
    using assms(1,2) by (rule dropWhile_hd)
  moreover have "dropWhile isWhiteSpace (rev s) = rev s"
    using assms(1,3) by (intro dropWhile_hd) (simp_all add: hd_rev)
  ultimately show ?thesis by (simp add: trim_def)
qed

lemma isDigit_digit_char: "d < 10 \<Longrightarrow> isDigit (digit_char d)"
  by (simp add: isDigit_def digit_char_def)

lemma of_char_digit_char: "d < 10 \<Longrightarrow> of_char (digit_char d) - 48 = d"
  by (simp add: digit_char_def)

lemma isDigit_plain:
  assumes "isDigit c"
  shows "\<not> isWhiteSpace c" "c \<noteq> CHR ''-''" "c \<noteq> CHR ''+''" "c \<noteq> CHR '';''" "c \<noteq> CHR ''=''"
  using assms by (auto simp add: isDigit_def isWhiteSpace_def)

lemma nat_toString_not_Nil: "nat_toString n \<noteq> []"
  by (subst nat_toString.simps) simp

lemma nat_toString_digits: "c \<in> set (nat_toString n) \<Longrightarrow> isDigit c"
proof (induction n arbitrary: c rule: nat_toString.induct)
  case (1 n)
  show ?case
  proof (cases "n < 10")
    case True
    with "1.prems" show ?thesis
      by (subst (asm) nat_toString.simps) (simp add: isDigit_digit_char)
  next
    case False
    with "1.prems" have "c \<in> set (nat_toString (n div 10)) \<or> c = digit_char (n mod 10)"
      by (subst (asm) nat_toString.simps) auto
    then show ?thesis
      using "1.IH" [OF False] by (auto simp add: isDigit_digit_char)
  qed
qed

lemma digits_value_snoc: "digits_value (ds @ [c]) = 10 * digits_value ds + (of_char c - 48)"
  by (simp add: digits_value_def)

lemma digits_value_nat_toString: "digits_value (nat_toString n) = n"
proof (induction n rule: nat_toString.induct)
  case (1 n)
  show ?case
  proof (cases "n < 10")
    case True
    then show ?thesis
      by (subst nat_toString.simps) (simp add: digits_value_def of_char_digit_char)
  next
    case False
    have "digits_value (nat_toString (n div 10) @ [digit_char (n mod 10)])
            = 10 * (n div 10) + n mod 10"
      using "1.IH" [OF False] by (simp add: digits_value_snoc of_char_digit_char)
    with False show ?thesis
      by (subst nat_toString.simps) simp
  qed
qed

lemma takeWhile_all: "(\<And>c. c \<in> set s \<Longrightarrow> P c) \<Longrightarrow> takeWhile P s = s"
  by (induction s) simp_all

lemma parseInt10_nat_toString:
  "parseInt10 (Some (nat_toString n)) = Num (int n)"
proof -
  let ?s = "nat_toString n"
  have "hd ?s \<in> set ?s"
    using nat_toString_not_Nil [of n] by simp
  then have hd: "isDigit (hd ?s)"
    by (rule nat_toString_digits)
  have dw: "dropWhile isWhiteSpace ?s = ?s"
    using nat_toString_not_Nil isDigit_plain(1) [OF hd] by (rule dropWhile_hd)
  have tw: "takeWhile isDigit ?s = ?s"
    by (rule takeWhile_all) (rule nat_toString_digits)
  show ?thesis
    using isDigit_plain(2,3) [OF hd] nat_toString_not_Nil [of n]
    by (simp add: parseInt10_def template_def Let_def digits_value_nat_toString dw tw)
qed

lemma parseInt10_int_toString: "parseInt10 (Some (int_toString i)) = Num i"
proof (cases "i < 0")
  case False
  then show ?thesis
    using parseInt10_nat_toString [of "nat i"] by (simp add: int_toString_def)
next
  case True
  let ?s = "nat_toString (nat (- i))"
  have tw: "takeWhile isDigit ?s = ?s"
    by (rule takeWhile_all) (rule nat_toString_digits)
  have "\<not> isWhiteSpace CHR ''-''"
    by (simp add: isWhiteSpace_def)
  then show ?thesis
    using True nat_toString_not_Nil [of "nat (- i)"]
    by (simp add: parseInt10_def template_def Let_def int_toString_def
        digits_value_nat_toString tw)
qed

lemma parseInt10_number_toString: "parseInt10 (Some (number_toString n)) = n"
proof (cases n)
  case NaN
  have "parseInt10 (Some ''NaN'') = NaN" by code_simp
  with NaN show ?thesis by (simp add: number_toString_def)
next
  case (Num i)
  then show ?thesis by (simp add: number_toString_def parseInt10_int_toString)
qed

lemma wire_safe_nat_toString: "wire_safe (nat_toString n)"
proof -
  let ?s = "nat_toString n"
  have ne: "?s \<noteq> []" by (rule nat_toString_not_Nil)
  then have "hd ?s \<in> set ?s" "last ?s \<in> set ?s"
    by simp_all
  then have "isDigit (hd ?s)" "isDigit (last ?s)"
    by (simp_all add: nat_toString_digits)
  then have "trim ?s = ?s"
    using ne by (intro trim_id) (simp_all add: isDigit_plain)
  moreover have "CHR '';'' \<notin> set ?s" "CHR ''='' \<notin> set ?s"
    using nat_toString_digits [of _ n] isDigit_plain(4,5) by blast+
  ultimately show ?thesis by (simp add: wire_safe_def)
qed

lemma wire_safe_number_toString: "wire_safe (number_toString n)"
proof (cases n)
  case NaN
  have "wire_safe ''NaN''" by code_simp
  with NaN show ?thesis by (simp add: number_toString_def)
next
  case (Num i)
  show ?thesis
  proof (cases "i < 0")
    case False
    with Num show ?thesis
      by (simp add: number_toString_def int_toString_def wire_safe_nat_toString)
  next
    case True
    let ?s = "nat_toString (nat (- i))"
    have ne: "?s \<noteq> []" by (rule nat_toString_not_Nil)
    then have "last ?s \<in> set ?s" by simp
    then have "isDigit (last ?s)" by (rule nat_toString_digits)
    then have "\<not> isWhiteSpace (last (CHR ''-'' # ?s))"
      using ne by (simp add: isDigit_plain)
    moreover have "\<not> isWhiteSpace (hd (CHR ''-'' # ?s))"
      by (simp add: isWhiteSpace_def)
    ultimately have "trim (CHR ''-'' # ?s) = CHR ''-'' # ?s"
      by (intro trim_id) simp_all
    moreover have "CHR '';'' \<notin> set ?s" "CHR ''='' \<notin> set ?s"
      using nat_toString_digits [of _ "nat (- i)"] isDigit_plain(4,5) by blast+
    ultimately show ?thesis
      using Num True by (simp add: number_toString_def int_toString_def wire_safe_def)
  qed
qed

section \<open>CookieObject: parsing\<close>

lemma at_index_split_0:
  "at_index (map trim (js_split c a)) 0 = Some (trim (hd (js_split c a)))"
  using js_split_not_Nil [of c a]
  by (cases "js_split c a") (simp_all add: at_index_def)

lemma parse_attribute_flags:
  "0 < index \<Longrightarrow>
   \<exists>options'. parse_attribute newDate a index options = Inr options' \<and>
     secure options' = (if attribute_key a = ''secure'' then Some True else secure options) \<and>
     httpOnly options' = (if attribute_key a = ''httponly'' then Some True else httpOnly options)"
  by (simp add: parse_attribute_def Let_def at_index_split_0 attribute_key_def)

lemma parse_forEach_flags:
  "0 < index \<Longrightarrow>
   \<exists>options'. parse_forEach newDate index attrs options = Inr options' \<and>
     secure options' = (if list_ex (\<lambda>a. attribute_key a = ''secure'') attrs then Some True else secure options) \<and>
     httpOnly options' = (if list_ex (\<lambda>a. attribute_key a = ''httponly'') attrs then Some True else httpOnly options)"
proof (induction attrs arbitrary: index options)
  case Nil
  then show ?case by simp
next
  case (Cons a attrs)
  from parse_attribute_flags [OF Cons.prems, of newDate a options]
  obtain o1 where o1: "parse_attribute newDate a index options = Inr o1"
    "secure o1 = (if attribute_key a = ''secure'' then Some True else secure options)"
    "httpOnly o1 = (if attribute_key a = ''httponly'' then Some True else httpOnly options)"
    by blast
  from Cons.IH [of "Suc index" o1]
  obtain o2 where o2: "parse_forEach newDate (Suc index) attrs o1 = Inr o2"
    "secure o2 = (if list_ex (\<lambda>a. attribute_key a = ''secure'') attrs then Some True else secure o1)"
    "httpOnly o2 = (if list_ex (\<lambda>a. attribute_key a = ''httponly'') attrs then Some True else httpOnly o1)"
    by auto
  show ?case using o1 o2 by simp
qed

text \<open>
  Claim C8. \<open>parse\<close> returns a cookie for every string, the empty one, segments
  without \<open>=\<close> and empty segments included; in the cookie \<open>secure\<close> and
  \<open>httpOnly\<close> are booleans: \<open>true\<close> when some segment after the first has that key
  (compared in lower case, trimmed), \<open>false\<close> otherwise.
\<close>

theorem parse_total:
  "\<exists>c. parse newDate s = Inr c \<and>
     secure c = Some (list_ex (\<lambda>a. attribute_key a = ''secure'') (tl (js_split CHR '';'' s))) \<and>
     httpOnly c = Some (list_ex (\<lambda>a. attribute_key a = ''httponly'') (tl (js_split CHR '';'' s)))"
proof (cases "js_split CHR '';'' s")
  case Nil
  then show ?thesis using js_split_not_Nil by blast
next
  case (Cons first attrs)
  define o0 :: "'a CookieObjectOptions" where
    "o0 = empty_options\<lparr>name := at_index (map trim (js_split CHR ''='' first)) 0,
                        cvalue := at_index (map trim (js_split CHR ''='' first)) 1\<rparr>"
  have first: "parse_attribute newDate first 0 empty_options = Inr o0"
    by (simp add: parse_attribute_def Let_def o0_def)
  have o0: "secure o0 = None" "httpOnly o0 = None"
    by (simp_all add: o0_def empty_options_def)
  from parse_forEach_flags [of "Suc 0" newDate attrs o0]
  obtain o2 where o2: "parse_forEach newDate (Suc 0) attrs o0 = Inr o2"
    "secure o2 = (if list_ex (\<lambda>a. attribute_key a = ''secure'') attrs then Some True else None)"
    "httpOnly o2 = (if list_ex (\<lambda>a. attribute_key a = ''httponly'') attrs then Some True else None)"
    using o0 by auto
  have "parse newDate s = Inr (CookieObject o2)"
    by (simp add: parse_def Cons first o2(1))
  then show ?thesis using o2 Cons by (simp add: CookieObject_def)
qed

text \<open>
  Claim C7 asks that the first segment be split at its first \<open>=\<close> only, so that
  \<open>sid=a=b\<close> gives the value \<open>a=b\<close>. The code splits at every \<open>=\<close> and keeps the
  first two parts: the value is \<open>a\<close>.
\<close>

theorem parse_value_cut_at_second_equals:
  "\<exists>c. parse newDate ''sid=a=b'' = Inr c \<and> name c = Some ''sid'' \<and> cvalue c = Some ''a''
     \<and> cvalue c \<noteq> Some ''a=b''"
  by (simp add: parse_def parse_attribute_def at_index_def trim_def isWhiteSpace_def
      empty_options_def CookieObject_def)

section \<open>CookieObject: text and back\<close>

lemma toString_segments:
  "toString toUTCString this
     = template (name this) @ ''='' @ template (cvalue this)
       @ concat (map ((#) CHR '';'') (attributes_of toUTCString this))"
proof -
  have 1: "(case expires this of Some d \<Rightarrow> '';Expires='' @ toUTCString d | None \<Rightarrow> [])
           = concat (map ((#) CHR '';'')
               (case expires this of Some d \<Rightarrow> [''Expires='' @ toUTCString d] | None \<Rightarrow> []))"
    by (simp split: option.split)
  have 2: "(case maxAge this of Some n \<Rightarrow> '';Max-Age='' @ number_toString n | None \<Rightarrow> [])
           = concat (map ((#) CHR '';'')
               (case maxAge this of Some n \<Rightarrow> [''Max-Age='' @ number_toString n] | None \<Rightarrow> []))"
    by (simp split: option.split)
  have 3: "\<And>P x. (if P then CHR '';'' # x else []) = concat (map ((#) CHR '';'') (if P then [x] else []))"
    by simp
  show ?thesis
    unfolding toString_def attributes_of_def map_append concat_append 1 2
    by (simp only: 3 [symmetric] append_Cons append_Nil)
qed

lemma parse_forEach_single:
  "parse_attribute newDate a index options = Inr options' \<Longrightarrow>
   parse_forEach newDate index [a] options = Inr options'"
  by simp

lemma parse_forEach_append:
  "parse_forEach newDate index xs options = Inr options1 \<Longrightarrow>
   parse_forEach newDate (index + length xs) ys options1 = Inr options2 \<Longrightarrow>
   parse_forEach newDate index (xs @ ys) options = Inr options2"
  by (induction xs arbitrary: index options) (auto split: sum.splits)

lemma parse_attribute_key_value:
  assumes "0 < index" and "CHR ''='' \<notin> set k" and "trim k = k" and "wire_safe v"
  shows "parse_attribute newDate (k @ CHR ''='' # v) index options =
     (let lk = toLowerCase k
      in if lk = ''expires'' then Inr (options\<lparr>expires := Some (newDate (Some v))\<rparr>)
         else if lk = ''max-age'' then Inr (options\<lparr>maxAge := Some (parseInt10 (Some v))\<rparr>)
         else if lk = ''domain'' then Inr (options\<lparr>domain := Some v\<rparr>)
         else if lk = ''path'' then Inr (options\<lparr>path := Some v\<rparr>)
         else if lk = ''secure'' then Inr (options\<lparr>secure := Some True\<rparr>)
         else if lk = ''httponly'' then Inr (options\<lparr>httpOnly := Some True\<rparr>)
         else if lk = ''samesite'' then Inr (options\<lparr>sameSite := Some v\<rparr>)
         else Inr options)"
proof -
  have "map trim (js_split CHR ''='' (k @ CHR ''='' # v)) = [k, v]"
    using assms(2-4) by (simp add: key_value_split wire_safe_def)
  then show ?thesis
    using assms(1) by (simp add: parse_attribute_def at_index_def Let_def)
qed

lemma parse_first_segment:
  assumes "wire_safe n" and "wire_safe v"
  shows "parse_attribute newDate (n @ CHR ''='' # v) 0 options
           = Inr (options\<lparr>name := Some n, cvalue := Some v\<rparr>)"
proof -
  have "map trim (js_split CHR ''='' (n @ CHR ''='' # v)) = [n, v]"
    using assms by (simp add: key_value_split wire_safe_def)
  then show ?thesis
    by (simp add: parse_attribute_def at_index_def Let_def)
qed

lemma keys_lower:
  "toLowerCase ''Expires'' = ''expires''" "toLowerCase ''Max-Age'' = ''max-age''"
  "toLowerCase ''Domain'' = ''domain''" "toLowerCase ''Path'' = ''path''"
  "toLowerCase ''SameSite'' = ''samesite''" "toLowerCase ''Secure'' = ''secure''"
  "toLowerCase ''HttpOnly'' = ''httponly''"
  by code_simp+

lemma keys_trim:
  "trim ''Expires'' = ''Expires''" "trim ''Max-Age'' = ''Max-Age''"
  "trim ''Domain'' = ''Domain''" "trim ''Path'' = ''Path''"
  "trim ''SameSite'' = ''SameSite''" "trim ''Secure'' = ''Secure''"
  "trim ''HttpOnly'' = ''HttpOnly''"
  by code_simp+

lemma parse_Expires:
  "0 < index \<Longrightarrow> wire_safe v \<Longrightarrow>
   parse_attribute newDate (''Expires='' @ v) index options
     = Inr (options\<lparr>expires := Some (newDate (Some v))\<rparr>)"
  using parse_attribute_key_value [of index "''Expires''" v newDate options]
  by (simp add: keys_lower keys_trim)

lemma parse_MaxAge:
  "0 < index \<Longrightarrow> wire_safe v \<Longrightarrow>
   parse_attribute newDate (''Max-Age='' @ v) index options
     = Inr (options\<lparr>maxAge := Some (parseInt10 (Some v))\<rparr>)"
  using parse_attribute_key_value [of index "''Max-Age''" v newDate options]
  by (simp add: keys_lower keys_trim)

lemma parse_Domain:
  "0 < index \<Longrightarrow> wire_safe v \<Longrightarrow>
   parse_attribute newDate (''Domain='' @ v) index options = Inr (options\<lparr>domain := Some v\<rparr>)"
  using parse_attribute_key_value [of index "''Domain''" v newDate options]
  by (simp add: keys_lower keys_trim)

lemma parse_Path:
  "0 < index \<Longrightarrow> wire_safe v \<Longrightarrow>
   parse_attribute newDate (''Path='' @ v) index options = Inr (options\<lparr>path := Some v\<rparr>)"
  using parse_attribute_key_value [of index "''Path''" v newDate options]
  by (simp add: keys_lower keys_trim)

lemma parse_SameSite:
  "0 < index \<Longrightarrow> wire_safe v \<Longrightarrow>
   parse_attribute newDate (''SameSite='' @ v) index options
     = Inr (options\<lparr>sameSite := Some v\<rparr>)"
  using parse_attribute_key_value [of index "''SameSite''" v newDate options]
  by (simp add: keys_lower keys_trim)

lemma parse_Secure:
  "0 < index \<Longrightarrow>
   parse_attribute newDate ''Secure'' index options = Inr (options\<lparr>secure := Some True\<rparr>)"
proof -
  have "map trim (js_split CHR ''='' ''Secure'') = [''Secure'']" by code_simp
  then show "0 < index \<Longrightarrow> ?thesis"
    by (simp add: parse_attribute_def at_index_def keys_lower del: js_split.simps)
qed

lemma parse_HttpOnly:
  "0 < index \<Longrightarrow>
   parse_attribute newDate ''HttpOnly'' index options = Inr (options\<lparr>httpOnly := Some True\<rparr>)"
proof -
  have "map trim (js_split CHR ''='' ''HttpOnly'') = [''HttpOnly'']" by code_simp
  then show "0 < index \<Longrightarrow> ?thesis"
    by (simp add: parse_attribute_def at_index_def keys_lower del: js_split.simps)
qed

lemma piece_expires:
  assumes "0 < index" and "expires options = None"
    and "\<forall>d. expires this = Some d \<longrightarrow> wire_safe (toUTCString d)"
  shows "parse_forEach newDate index
           (case expires this of Some d \<Rightarrow> [''Expires='' @ toUTCString d] | None \<Rightarrow> []) options
         = Inr (options\<lparr>expires := map_option (\<lambda>d. newDate (Some (toUTCString d))) (expires this)\<rparr>)"
proof (cases "expires this")
  case None
  with assms(2) show ?thesis by (cases options) simp
next
  case (Some d)
  with assms(3) have "wire_safe (toUTCString d)" by simp
  from parse_forEach_single [OF parse_Expires [OF assms(1) this]] Some show ?thesis
    by simp
qed

lemma piece_maxAge:
  assumes "0 < index" and "maxAge options = None"
  shows "parse_forEach newDate index
           (case maxAge this of Some n \<Rightarrow> [''Max-Age='' @ number_toString n] | None \<Rightarrow> []) options
         = Inr (options\<lparr>maxAge := maxAge this\<rparr>)"
proof (cases "maxAge this")
  case None
  with assms(2) show ?thesis by (cases options) simp
next
  case (Some n)
  from parse_forEach_single [OF parse_MaxAge [OF assms(1) wire_safe_number_toString]] Some
  show ?thesis
    by (simp add: parseInt10_number_toString)
qed

lemma piece_domain:
  assumes "0 < index" and "domain options = None" and "wire_attr (domain this)"
  shows "parse_forEach newDate index
           (if truthy (domain this) then [''Domain='' @ template (domain this)] else []) options
         = Inr (options\<lparr>domain := domain this\<rparr>)"
proof (cases "domain this")
  case None
  with assms(2) show ?thesis by (cases options) (simp add: truthy_def)
next
  case (Some s)
  with assms(3) have s: "s \<noteq> []" "wire_safe s" by (simp_all add: wire_attr_def)
  from parse_forEach_single [OF parse_Domain [OF assms(1) s(2)]] Some s(1) show ?thesis
    by (simp add: truthy_def template_def)
qed

lemma piece_path:
  assumes "0 < index" and "path options = None" and "wire_attr (path this)"
  shows "parse_forEach newDate index
           (if truthy (path this) then [''Path='' @ template (path this)] else []) options
         = Inr (options\<lparr>path := path this\<rparr>)"
proof (cases "path this")
  case None
  with assms(2) show ?thesis by (cases options) (simp add: truthy_def)
next
  case (Some s)
  with assms(3) have s: "s \<noteq> []" "wire_safe s" by (simp_all add: wire_attr_def)
  from parse_forEach_single [OF parse_Path [OF assms(1) s(2)]] Some s(1) show ?thesis
    by (simp add: truthy_def template_def)
qed

lemma piece_sameSite:
  assumes "0 < index" and "sameSite options = None" and "wire_attr (sameSite this)"
  shows "parse_forEach newDate index
           (if truthy (sameSite this) then [''SameSite='' @ template (sameSite this)] else [])
           options
         = Inr (options\<lparr>sameSite := sameSite this\<rparr>)"
proof (cases "sameSite this")
  case None
  with assms(2) show ?thesis by (cases options) (simp add: truthy_def)
next
  case (Some s)
  with assms(3) have s: "s \<noteq> []" "wire_safe s" by (simp_all add: wire_attr_def)
  from parse_forEach_single [OF parse_SameSite [OF assms(1) s(2)]] Some s(1) show ?thesis
    by (simp add: truthy_def template_def)
qed

lemma piece_secure:
  assumes "0 < index" and "secure options = None"
  shows "parse_forEach newDate index (if secure this = Some True then [''Secure''] else []) options
         = Inr (options\<lparr>secure := (if secure this = Some True then Some True else None)\<rparr>)"
proof (cases "secure this = Some True")
  case False
  with assms(2) show ?thesis by (cases options) simp
next
  case True
  from parse_forEach_single [OF parse_Secure [OF assms(1)]] True show ?thesis
    by simp
qed

lemma piece_httpOnly:
  assumes "0 < index" and "httpOnly options = None"
  shows "parse_forEach newDate index (if httpOnly this = Some True then [''HttpOnly''] else [])
           options
         = Inr (options\<lparr>httpOnly := (if httpOnly this = Some True then Some True else None)\<rparr>)"
proof (cases "httpOnly this = Some True")
  case False
  with assms(2) show ?thesis by (cases options) simp
next
  case True
  from parse_forEach_single [OF parse_HttpOnly [OF assms(1)]] True show ?thesis
    by simp
qed

lemma parse_attributes_of:
  assumes "0 < index"
    and "expires options = None" and "maxAge options = None" and "domain options = None"
    and "path options = None" and "secure options = None" and "httpOnly options = None"
    and "sameSite options = None"
    and "\<forall>d. expires this = Some d \<longrightarrow> wire_safe (toUTCString d)"
    and "wire_attr (domain this)" and "wire_attr (path this)" and "wire_attr (sameSite this)"
  shows "parse_forEach newDate index (attributes_of toUTCString this) options
         = Inr (options
             \<lparr>expires := map_option (\<lambda>d. newDate (Some (toUTCString d))) (expires this),
              maxAge := maxAge this, domain := domain this, path := path this,
              secure := (if secure this = Some True then Some True else None),
              httpOnly := (if httpOnly this = Some True then Some True else None),
              sameSite := sameSite this\<rparr>)"
proof -
  let ?A1 = "case expires this of Some d \<Rightarrow> [''Expires='' @ toUTCString d] | None \<Rightarrow> []"
  let ?A2 = "case maxAge this of Some n \<Rightarrow> [''Max-Age='' @ number_toString n] | None \<Rightarrow> []"
  let ?A3 = "if truthy (domain this) then [''Domain='' @ template (domain this)] else []"
  let ?A4 = "if truthy (path this) then [''Path='' @ template (path this)] else []"
  let ?A5 = "if secure this = Some True then [''Secure''] else []"
  let ?A6 = "if httpOnly this = Some True then [''HttpOnly''] else []"
  let ?A7 = "if truthy (sameSite this) then [''SameSite='' @ template (sameSite this)] else []"
  let ?o1 = "options\<lparr>expires := map_option (\<lambda>d. newDate (Some (toUTCString d))) (expires this)\<rparr>"
  let ?o2 = "?o1\<lparr>maxAge := maxAge this\<rparr>"
  let ?o3 = "?o2\<lparr>domain := domain this\<rparr>"
  let ?o4 = "?o3\<lparr>path := path this\<rparr>"
  let ?o5 = "?o4\<lparr>secure := (if secure this = Some True then Some True else None)\<rparr>"
  let ?o6 = "?o5\<lparr>httpOnly := (if httpOnly this = Some True then Some True else None)\<rparr>"
  let ?o7 = "?o6\<lparr>sameSite := sameSite this\<rparr>"
  have pos: "\<And>n. 0 < index + n" using assms(1) by simp
  have s7: "\<And>i. 0 < i \<Longrightarrow> parse_forEach newDate i ?A7 ?o6 = Inr ?o7"
    by (rule piece_sameSite) (simp_all add: assms)
  have s6: "\<And>i. 0 < i \<Longrightarrow> parse_forEach newDate i (?A6 @ ?A7) ?o5 = Inr ?o7"
    by (rule parse_forEach_append [OF piece_httpOnly s7]) (simp_all add: assms)
  have s5: "\<And>i. 0 < i \<Longrightarrow> parse_forEach newDate i (?A5 @ ?A6 @ ?A7) ?o4 = Inr ?o7"
    by (rule parse_forEach_append [OF piece_secure s6]) (simp_all add: assms)
  have s4: "\<And>i. 0 < i \<Longrightarrow> parse_forEach newDate i (?A4 @ ?A5 @ ?A6 @ ?A7) ?o3 = Inr ?o7"
    by (rule parse_forEach_append [OF piece_path s5]) (simp_all add: assms)
  have s3: "\<And>i. 0 < i \<Longrightarrow> parse_forEach newDate i (?A3 @ ?A4 @ ?A5 @ ?A6 @ ?A7) ?o2 = Inr ?o7"
    by (rule parse_forEach_append [OF piece_domain s4]) (simp_all add: assms)
  have s2: "\<And>i. 0 < i \<Longrightarrow>
      parse_forEach newDate i (?A2 @ ?A3 @ ?A4 @ ?A5 @ ?A6 @ ?A7) ?o1 = Inr ?o7"
    by (rule parse_forEach_append [OF piece_maxAge s3]) (simp_all add: assms)
  have s1: "parse_forEach newDate index (?A1 @ ?A2 @ ?A3 @ ?A4 @ ?A5 @ ?A6 @ ?A7) options
              = Inr ?o7"
    by (rule parse_forEach_append [OF piece_expires s2]) (simp_all add: assms)
  then show ?thesis
    by (simp only: attributes_of_def)
qed

lemma attributes_of_no_semicolon:
  assumes "\<forall>d. expires this = Some d \<longrightarrow> wire_safe (toUTCString d)"
    and "wire_attr (domain this)" and "wire_attr (path this)" and "wire_attr (sameSite this)"
  shows "\<forall>b\<in>set (attributes_of toUTCString this). CHR '';'' \<notin> set b"
proof -
  have n: "\<And>n. CHR '';'' \<notin> set (number_toString n)"
    using wire_safe_number_toString by (simp add: wire_safe_def)
  have a: "\<And>v. wire_attr v \<Longrightarrow> truthy v \<Longrightarrow> CHR '';'' \<notin> set (template v)"
    by (auto simp add: wire_attr_def wire_safe_def truthy_def template_def split: option.splits)
  have e: "\<And>d. expires this = Some d \<Longrightarrow> CHR '';'' \<notin> set (toUTCString d)"
    using assms(1) by (simp add: wire_safe_def)
  show ?thesis
    using assms(2-4)
    by (auto simp add: attributes_of_def n a e split: option.splits)
qed

text \<open>
  Claim C6, as the code has it. Take a cookie record whose name and value are strings
  and whose name, value, domain, path and sameSite have no \<open>;\<close>, no \<open>=\<close> and no white
  space at either end, with domain, path and sameSite absent or non-empty, maxAge absent,
  \<open>NaN\<close> or an integer below \<open>2^53\<close> in magnitude, and expires absent or a date whose
  \<open>toUTCString\<close> text is of that kind too. Then parsing the text of the constructed
  cookie succeeds and gives back name, value, domain, path, sameSite and maxAge as they
  were, secure and httpOnly as the constructor left them (absent read as \<open>false\<close>), and
  for expires the date read back from its \<open>toUTCString\<close> text.
\<close>

theorem cookie_roundtrip:
  fixes c :: "'d CookieObjectOptions"
    and newDate :: "string option \<Rightarrow> 'd" and toUTCString :: "'d \<Rightarrow> string"
  assumes "name c = Some n" and "cvalue c = Some v" and "wire_safe n" and "wire_safe v"
    and "wire_attr (domain c)" and "wire_attr (path c)" and "wire_attr (sameSite c)"
    and "\<forall>d. expires c = Some d \<longrightarrow> wire_safe (toUTCString d)"
    and "\<forall>i. maxAge c = Some (Num i) \<longrightarrow> \<bar>i\<bar> < 2 ^ 53"
  shows "\<exists>c'. parse newDate (toString toUTCString (CookieObject c)) = Inr c'
           \<and> name c' = name c \<and> cvalue c' = cvalue c \<and> domain c' = domain c
           \<and> path c' = path c \<and> sameSite c' = sameSite c
           \<and> secure c' = secure (CookieObject c) \<and> httpOnly c' = httpOnly (CookieObject c)
           \<and> maxAge c' = maxAge c
           \<and> expires c' = map_option (\<lambda>d. newDate (Some (toUTCString d))) (expires c)"
proof -
  let ?obj = "CookieObject c"
  let ?first = "n @ CHR ''='' # v"
  let ?o0 = "empty_options\<lparr>name := Some n, cvalue := Some v\<rparr> :: 'd CookieObjectOptions"
  let ?o7 = "?o0\<lparr>expires := map_option (\<lambda>d. newDate (Some (toUTCString d))) (expires ?obj),
              maxAge := maxAge ?obj, domain := domain ?obj, path := path ?obj,
              secure := (if secure ?obj = Some True then Some True else None),
              httpOnly := (if httpOnly ?obj = Some True then Some True else None),
              sameSite := sameSite ?obj\<rparr>"
  have obj: "name ?obj = Some n" "cvalue ?obj = Some v" "domain ?obj = domain c"
    "path ?obj = path c" "sameSite ?obj = sameSite c" "expires ?obj = expires c"
    "maxAge ?obj = maxAge c"
    using assms(1,2) by (simp_all add: CookieObject_def)
  have safe: "\<forall>d. expires ?obj = Some d \<longrightarrow> wire_safe (toUTCString d)"
    "wire_attr (domain ?obj)" "wire_attr (path ?obj)" "wire_attr (sameSite ?obj)"
    using assms(5-8) by (simp_all only: obj)
  have ts: "toString toUTCString ?obj
          = ?first @ concat (map ((#) CHR '';'') (attributes_of toUTCString ?obj))"
    by (simp add: toString_segments obj template_def)
  have nf: "CHR '';'' \<notin> set ?first"
    using assms(3,4) by (simp add: wire_safe_def)
  have split: "js_split CHR '';'' (toString toUTCString ?obj)
          = ?first # attributes_of toUTCString ?obj"
    unfolding ts by (rule js_split_segments [OF nf attributes_of_no_semicolon [OF safe]])
  have first: "parse_attribute newDate ?first 0 empty_options = Inr ?o0"
    by (rule parse_first_segment [OF assms(3,4)])
  have rest: "parse_forEach newDate (Suc 0) (attributes_of toUTCString ?obj) ?o0 = Inr ?o7"
    by (rule parse_attributes_of [OF _ _ _ _ _ _ _ _ safe]) (simp_all add: empty_options_def)
  have "parse newDate (toString toUTCString ?obj) = Inr (CookieObject ?o7)"
    by (simp add: parse_def split first rest)
  moreover have "name (CookieObject ?o7) = name c" "cvalue (CookieObject ?o7) = cvalue c"
    "domain (CookieObject ?o7) = domain c" "path (CookieObject ?o7) = path c"
    "sameSite (CookieObject ?o7) = sameSite c"
    "secure (CookieObject ?o7) = secure (CookieObject c)"
    "httpOnly (CookieObject ?o7) = httpOnly (CookieObject c)"
    "maxAge (CookieObject ?o7) = maxAge c"
    "expires (CookieObject ?o7) = map_option (\<lambda>d. newDate (Some (toUTCString d))) (expires c)"
    using assms(1,2) by (auto simp add: CookieObject_def split: option.splits)
  ultimately show ?thesis by blast
qed

text \<open>A value with a \<open>;\<close> in it: the text has no way to carry it, and the value read
  back stops there.\<close>

theorem cookie_value_with_semicolon_counterexample:
  "case parse (\<lambda>v. template v)
          (toString (\<lambda>d. d)
             (CookieObject \<lparr>name = Some ''a'', cvalue = Some ''b;c'', expires = None, maxAge = None,
                domain = None, path = None, secure = None, httpOnly = None, sameSite = None\<rparr>)) of
     Inl e \<Rightarrow> False
   | Inr c' \<Rightarrow> name c' = Some ''a'' \<and> cvalue c' = Some ''b'' \<and> cvalue c' \<noteq> Some ''b;c''"
  by code_simp

theorem cookie_roundtrip_witness:
  "wire_safe ''sid'' \<and> wire_safe ''abc'' \<and> wire_attr (Some ''example.com'')
   \<and> wire_attr (Some ''/'') \<and> wire_attr (Some ''lax'')
   \<and> wire_safe ''Wed, 21 Oct 2015 07:28:00 GMT'' \<and> \<bar>3600 :: int\<bar> < 2 ^ 53
   \<and> (\<exists>c'. parse (\<lambda>v. template v)
               (toString (\<lambda>d. d)
                  (CookieObject
                     \<lparr>name = Some ''sid'', cvalue = Some ''abc'',
                      expires = Some ''Wed, 21 Oct 2015 07:28:00 GMT'',
                      maxAge = Some (Num 3600), domain = Some ''example.com'',
                      path = Some ''/'', secure = Some True, httpOnly = None,
                      sameSite = Some ''lax''\<rparr>)) = Inr c'
          \<and> name c' = Some ''sid'' \<and> cvalue c' = Some ''abc''
          \<and> domain c' = Some ''example.com'' \<and> path c' = Some ''/''
          \<and> sameSite c' = Some ''lax'' \<and> secure c' = Some True \<and> httpOnly c' = Some False
          \<and> maxAge c' = Some (Num 3600)
          \<and> expires c' = Some ''Wed, 21 Oct 2015 07:28:00 GMT'')"
proof -
  let ?c = "\<lparr>name = Some ''sid'', cvalue = Some ''abc'',
             expires = Some ''Wed, 21 Oct 2015 07:28:00 GMT'',
             maxAge = Some (Num 3600), domain = Some ''example.com'',
             path = Some ''/'', secure = Some True, httpOnly = None,
             sameSite = Some ''lax''\<rparr>"
  have s: "wire_safe ''sid''" "wire_safe ''abc''" "wire_attr (Some ''example.com'')"
    "wire_attr (Some ''/'')" "wire_attr (Some ''lax'')"
    "wire_safe ''Wed, 21 Oct 2015 07:28:00 GMT''"
    by code_simp+
  have b: "\<bar>3600 :: int\<bar> < 2 ^ 53" by simp
  have h: "name ?c = Some ''sid''" "cvalue ?c = Some ''abc''"
    "wire_attr (domain ?c)" "wire_attr (path ?c)" "wire_attr (sameSite ?c)"
    "\<forall>d. expires ?c = Some d \<longrightarrow> wire_safe ((\<lambda>d. d) d)"
    "\<forall>i. maxAge ?c = Some (Num i) \<longrightarrow> \<bar>i\<bar> < 2 ^ 53"
    using s by simp_all
  from cookie_roundtrip [of ?c "''sid''" "''abc''" "\<lambda>d. d" "\<lambda>v. template v",
      OF h(1,2) s(1,2) h(3-7)]
  have "\<exists>c'. parse (\<lambda>v. template v) (toString (\<lambda>d. d) (CookieObject ?c)) = Inr c'
          \<and> name c' = Some ''sid'' \<and> cvalue c' = Some ''abc''
          \<and> domain c' = Some ''example.com'' \<and> path c' = Some ''/''
          \<and> sameSite c' = Some ''lax'' \<and> secure c' = Some True \<and> httpOnly c' = Some False
          \<and> maxAge c' = Some (Num 3600)
          \<and> expires c' = Some ''Wed, 21 Oct 2015 07:28:00 GMT''"
    by (simp add: CookieObject_def template_def)
  with s b show ?thesis by blast
qed

end
